theory Spec2Isabelle
  imports Main "HOL-Library.Sublist"
begin

section \<open>Strings and JavaScript values\<close>

text \<open>
  The attendee routes (\<^verbatim>\<open>routes/attendees.js\<close>) work on JavaScript strings.
  A string is modelled as a \<^typ>\<open>string\<close>, one \<^typ>\<open>char\<close> per code unit, which
  covers every string whose code units are below 256 (ASCII and Latin-1). A value that
  may be \<^verbatim>\<open>null\<close> or \<^verbatim>\<open>undefined\<close> is a \<^typ>\<open>string option\<close>.
  Cell values and request fields are taken after their coercion to text.
\<close>

text \<open>The character class \<^verbatim>\<open>\d\<close> of a JavaScript regular expression: the ten ASCII digits.\<close>

definition is_digit :: "char \<Rightarrow> bool" where
  "is_digit c \<longleftrightarrow> c \<in> set ''0123456789''"

text \<open>The character class \<^verbatim>\<open>[a-z0-9]\<close>.\<close>

definition is_lower_alnum :: "char \<Rightarrow> bool" where
  "is_lower_alnum c \<longleftrightarrow> c \<in> set ''abcdefghijklmnopqrstuvwxyz0123456789''"

text \<open>
  \<^verbatim>\<open>String.prototype.toLowerCase\<close>, code unit by code unit. The ASCII capitals map to
  the ASCII small letters. A Latin-1 capital maps to a Latin-1 small letter; both are
  outside \<^verbatim>\<open>[a-z0-9]\<close> and outside every keyword of the column resolver, so the model
  leaves the code units from 128 on as they are.
\<close>

definition toLowerCase_char :: "char \<Rightarrow> char" where
  "toLowerCase_char c =
     (case map_of (zip ''ABCDEFGHIJKLMNOPQRSTUVWXYZ'' ''abcdefghijklmnopqrstuvwxyz'') c of
        Some l \<Rightarrow> l
      | None \<Rightarrow> c)"

definition toLowerCase :: "string \<Rightarrow> string" where
  "toLowerCase s = map toLowerCase_char s"

text \<open>
  White space and line terminators removed by \<^verbatim>\<open>String.prototype.trim\<close>, among the code
  units below 256: tab, line feed, vertical tab, form feed, carriage return, space and
  the no-break space.
\<close>

definition is_space :: "char \<Rightarrow> bool" where
  "is_space c \<longleftrightarrow> c \<in> set [CHR 0x09, CHR 0x0A, CHR 0x0B, CHR 0x0C, CHR 0x0D, CHR 0x20, CHR 0xA0]"

definition trim :: "string \<Rightarrow> string" where
  "trim s = rev (dropWhile is_space (rev (dropWhile is_space s)))"

text \<open>
  Truthiness of a value that is a string, \<^verbatim>\<open>null\<close> or \<^verbatim>\<open>undefined\<close>: only a
  non-empty string is truthy. \<^verbatim>\<open>x || null\<close> keeps a truthy \<open>x\<close> and gives
  \<^verbatim>\<open>null\<close> otherwise.
\<close>

definition truthy :: "string option \<Rightarrow> bool" where
  "truthy v \<longleftrightarrow> (case v of None \<Rightarrow> False | Some s \<Rightarrow> s \<noteq> [])"

definition or_null :: "string option \<Rightarrow> string option" where
  "or_null v = (if truthy v then v else None)"

section \<open>Normalization utilities\<close>

text \<open>
  \<^verbatim>\<open>
  function normalizePhone(number) {
    if (!number) return null;
    let digits = number.toString().replace(/\D/g, "");
    return digits;
  }

  function normalizeName(name) {
    if (!name) return "";
    return name.toString().trim().toLowerCase().replace(/[^a-z0-9]/g, "");
  }
  \<close>
  \<open>normalizePhone\<close> returns \<^verbatim>\<open>null\<close> (\<open>None\<close>) for a falsy argument and a string
  otherwise; \<open>normalizeName\<close> always returns a string.
\<close>

definition normalizePhone :: "string option \<Rightarrow> string option" where
  "normalizePhone number =
     (if \<not> truthy number then None
      else Some (filter is_digit (the number)))"

definition normalizeName :: "string option \<Rightarrow> string" where
  "normalizeName name =
     (if \<not> truthy name then []
      else filter is_lower_alnum (toLowerCase (trim (the name))))"

section \<open>Storage\<close>

text \<open>
  The tables of \<^verbatim>\<open>migrate.js\<close>. Of an event only the columns read by the attendee
  routes are kept. Time stamps are numbers; \<open>now\<close> is the value of \<^verbatim>\<open>NOW()\<close>.
  \<^verbatim>\<open>
  CREATE TABLE IF NOT EXISTS attendees (
    id SERIAL PRIMARY KEY,
    event_id INTEGER NOT NULL REFERENCES events(id) ON DELETE CASCADE,
    name VARCHAR(255) NOT NULL,
    phone_number VARCHAR(50),
    email VARCHAR(255),
    checked_in BOOLEAN DEFAULT FALSE,
    checked_in_at TIMESTAMP,
    source VARCHAR(10) DEFAULT 'manual',
    created_at TIMESTAMP DEFAULT NOW(),
    updated_at TIMESTAMP DEFAULT NOW()
  );
  ALTER TABLE events ADD COLUMN IF NOT EXISTS is_finished BOOLEAN DEFAULT FALSE;
  \<close>
\<close>

datatype source_tag = SourceManual | SourceImport

record attendee =
  a_id :: nat
  a_event_id :: nat
  a_name :: string
  a_phone_number :: "string option"
  a_email :: "string option"
  a_checked_in :: bool
  a_checked_in_at :: "nat option"
  a_source :: source_tag
  a_created_at :: nat
  a_updated_at :: nat

record event_row =
  e_id :: nat
  e_is_finished :: bool

record db =
  events :: "event_row list"
  attendees :: "attendee list"
  attendees_id_seq :: nat

text \<open>
  A statement can fail. The failures that the values and the schema determine are
  modelled: a text parameter that holds the code unit 0, which PostgreSQL rejects as an
  invalid byte sequence (SQLSTATE 22021) when it reads the parameters; a value longer than
  its \<^verbatim>\<open>VARCHAR(n)\<close> column (PostgreSQL cuts the excess when it is all spaces and
  raises otherwise); and an \<^verbatim>\<open>event_id\<close> that references no event. Reading the
  uploaded file can fail too.
\<close>

datatype error = InvalidByteSequence | StringTooLong | ForeignKeyViolation | UnreadableFile

definition has_nul :: "string option \<Rightarrow> bool" where
  "has_nul v = (case v of None \<Rightarrow> False | Some s \<Rightarrow> CHR 0x00 \<in> set s)"

definition pg_varchar :: "nat \<Rightarrow> string \<Rightarrow> error + string" where
  "pg_varchar n s =
     (if length s \<le> n then Inr s
      else if list_all (\<lambda>c. c = CHR '' '') (drop n s) then Inr (take n s)
      else Inl StringTooLong)"

definition pg_varchar_null :: "nat \<Rightarrow> string option \<Rightarrow> error + string option" where
  "pg_varchar_null n v =
     (case v of
        None \<Rightarrow> Inr None
      | Some s \<Rightarrow> (case pg_varchar n s of Inl e \<Rightarrow> Inl e | Inr s' \<Rightarrow> Inr (Some s')))"

text \<open>
  \<^verbatim>\<open>INSERT INTO attendees (event_id, name, phone_number, email, source)
  VALUES ($1, $2, $3, $4, <source>) RETURNING *\<close>:
  the new row, with the defaults of the other columns, and the table with the row added;
  or the error raised.
\<close>

definition insert_attendee ::
  "db \<Rightarrow> nat \<Rightarrow> nat \<Rightarrow> string \<Rightarrow> string option \<Rightarrow> string option \<Rightarrow> source_tag
     \<Rightarrow> error + (attendee \<times> db)" where
  "insert_attendee d now eventId name phone email src =
     (if has_nul (Some name) \<or> has_nul phone \<or> has_nul email then Inl InvalidByteSequence
      else
     (case pg_varchar 255 name of
        Inl e \<Rightarrow> Inl e
      | Inr name' \<Rightarrow>
     (case pg_varchar_null 50 phone of
        Inl e \<Rightarrow> Inl e
      | Inr phone' \<Rightarrow>
     (case pg_varchar_null 255 email of
        Inl e \<Rightarrow> Inl e
      | Inr email' \<Rightarrow>
        if eventId \<notin> set (map e_id (events d)) then Inl ForeignKeyViolation
        else
          let a = \<lparr>a_id = attendees_id_seq d, a_event_id = eventId, a_name = name',
                   a_phone_number = phone', a_email = email', a_checked_in = False,
                   a_checked_in_at = None, a_source = src, a_created_at = now,
                   a_updated_at = now\<rparr>
          in Inr (a, d\<lparr>attendees := attendees d @ [a],
                       attendees_id_seq := Suc (attendees_id_seq d)\<rparr>)))))"

text \<open>
  \<^verbatim>\<open>UPDATE attendees SET ... WHERE id = $1 AND event_id = $2 RETURNING *\<close> and
  \<^verbatim>\<open>DELETE FROM attendees WHERE ... RETURNING *\<close>: the new table and the rows returned.
\<close>

definition update_attendees ::
  "(attendee \<Rightarrow> bool) \<Rightarrow> (attendee \<Rightarrow> attendee) \<Rightarrow> db \<Rightarrow> db \<times> attendee list" where
  "update_attendees p f d =
     (d\<lparr>attendees := map (\<lambda>a. if p a then f a else a) (attendees d)\<rparr>,
      map f (filter p (attendees d)))"

definition delete_attendees :: "(attendee \<Rightarrow> bool) \<Rightarrow> db \<Rightarrow> db \<times> attendee list" where
  "delete_attendees p d =
     (d\<lparr>attendees := filter (\<lambda>a. \<not> p a) (attendees d)\<rparr>, filter p (attendees d))"

text \<open>
  \<^verbatim>\<open>SELECT is_finished FROM events WHERE id = $1\<close>, and the test
  \<^verbatim>\<open>eventCheck.rows[0]?.is_finished\<close>, false when no row came back.
\<close>

definition eventCheck :: "db \<Rightarrow> nat \<Rightarrow> bool list" where
  "eventCheck d eventId = map e_is_finished (filter (\<lambda>e. e_id e = eventId) (events d))"

definition first_is_finished :: "bool list \<Rightarrow> bool" where
  "first_is_finished rows = (case rows of [] \<Rightarrow> False | f # _ \<Rightarrow> f)"

text \<open>
  \<^verbatim>\<open>
  async function getEventStats(eventId) {
    SELECT COUNT(id)::int AS total_attendees,
           COUNT(CASE WHEN checked_in THEN 1 END)::int AS checked_in_count
    FROM attendees WHERE event_id = $1
  }
  \<close>
\<close>

record stats =
  total_attendees :: nat
  checked_in_count :: nat

definition getEventStats :: "db \<Rightarrow> nat \<Rightarrow> stats" where
  "getEventStats d eventId =
     \<lparr>total_attendees = length (filter (\<lambda>a. a_event_id a = eventId) (attendees d)),
      checked_in_count =
        length (filter (\<lambda>a. a_event_id a = eventId \<and> a_checked_in a) (attendees d))\<rparr>"

section \<open>Responses and broadcasts\<close>

datatype match_field = MatchedByPhone | MatchedByName

record duplicate_match =
  matchedBy :: match_field
  existingName :: string
  existingPhone :: "string option"

text \<open>An entry of the \<^verbatim>\<open>duplicates\<close> array of the import response.\<close>

record duplicate_candidate =
  c_name :: string
  c_phone :: "string option"
  c_email :: "string option"
  c_rowIndex :: nat
  c_matchedBy :: match_field
  c_existingName :: string
  c_existingPhone :: "string option"

text \<open>
  The JSON body of a response besides \<^verbatim>\<open>success\<close>. The message of an import response
  is a text made of the counts and is left out.
\<close>

datatype body =
    ErrorsBody
  | MessageBody string
  | FailureBody string error
  | DataBody attendee
  | MessageDataBody string attendee
  | NoNameColumnBody string "string list"
  | ImportBody nat nat "duplicate_candidate list"
  | ImportedBody nat

record response =
  status :: nat
  success :: bool
  body :: body

datatype emit_payload =
    AttendeeEvent attendee stats
  | DeletedEvent nat stats
  | ImportedEvent nat nat stats
  | ClearedEvent stats

text \<open>\<^verbatim>\<open>emitToEvent(req, eventId, event, payload)\<close>: one message to the room of the event.\<close>

record emission =
  room :: nat
  event_name :: string
  payload :: emit_payload

text \<open>What a handler leaves behind: the response, the database, the messages sent.\<close>

record result =
  resp :: response
  store :: db
  emitted :: "emission list"

definition reply :: "db \<Rightarrow> nat \<Rightarrow> bool \<Rightarrow> body \<Rightarrow> result" where
  "reply d st ok b =
     \<lparr>resp = \<lparr>status = st, success = ok, body = b\<rparr>, store = d, emitted = []\<rparr>"

definition reply_emit :: "db \<Rightarrow> nat \<Rightarrow> bool \<Rightarrow> body \<Rightarrow> emission \<Rightarrow> result" where
  "reply_emit d st ok b e =
     \<lparr>resp = \<lparr>status = st, success = ok, body = b\<rparr>, store = d, emitted = [e]\<rparr>"

section \<open>Duplicate check of the import\<close>

text \<open>
  The two queries of the import loop compare normalized values inside the database:
  \<^verbatim>\<open>regexp_replace(phone_number, '\D', '', 'g') = $2\<close> (never true for a \<^verbatim>\<open>NULL\<close>
  phone) and \<^verbatim>\<open>regexp_replace(lower(name), '[^a-z0-9]', '', 'g') = $2\<close>.
  \<^verbatim>\<open>LIMIT 1\<close> without an order returns one matching row; the model takes the first in
  table order.
\<close>

definition sql_strip_non_digits :: "string option \<Rightarrow> string option" where
  "sql_strip_non_digits v = map_option (filter is_digit) v"

definition sql_lower_alnum :: "string \<Rightarrow> string" where
  "sql_lower_alnum s = filter is_lower_alnum (map toLowerCase_char s)"

definition phoneCheck :: "db \<Rightarrow> nat \<Rightarrow> string \<Rightarrow> attendee list" where
  "phoneCheck d eventId normPhone =
     take 1 (filter (\<lambda>a. a_event_id a = eventId
                         \<and> sql_strip_non_digits (a_phone_number a) = Some normPhone)
               (attendees d))"

definition nameCheck :: "db \<Rightarrow> nat \<Rightarrow> string \<Rightarrow> attendee list" where
  "nameCheck d eventId normName =
     take 1 (filter (\<lambda>a. a_event_id a = eventId \<and> sql_lower_alnum (a_name a) = normName)
               (attendees d))"

text \<open>
  The value of the variable \<^verbatim>\<open>duplicateMatch\<close> after the two checks:
  \<^verbatim>\<open>
  let duplicateMatch = null;
  const normPhone = normalizePhone(phone);
  if (normPhone) {
    const phoneCheck = await client.query(...);
    if (phoneCheck.rows.length > 0) duplicateMatch = { matchedBy: "phone", ... };
  }
  if (!duplicateMatch) {
    const normName = normalizeName(name);
    const nameCheck = await client.query(...);
    if (nameCheck.rows.length > 0) duplicateMatch = { matchedBy: "name", ... };
  }
  \<close>
\<close>

definition duplicateMatch :: "db \<Rightarrow> nat \<Rightarrow> string \<Rightarrow> string option \<Rightarrow> duplicate_match option" where
  "duplicateMatch d eventId name phone =
     (let normPhone = normalizePhone phone;
          byPhone =
            (if truthy normPhone then
               (case phoneCheck d eventId (the normPhone) of
                  [] \<Rightarrow> None
                | r # _ \<Rightarrow> Some \<lparr>matchedBy = MatchedByPhone, existingName = a_name r,
                                 existingPhone = a_phone_number r\<rparr>)
             else None)
      in case byPhone of
           Some m \<Rightarrow> Some m
         | None \<Rightarrow>
             (let normName = normalizeName (Some name) in
              case nameCheck d eventId normName of
                [] \<Rightarrow> None
              | r # _ \<Rightarrow> Some \<lparr>matchedBy = MatchedByName, existingName = a_name r,
                               existingPhone = a_phone_number r\<rparr>))"

section \<open>Column resolution of the import\<close>

text \<open>
  A row of \<^verbatim>\<open>XLSX.utils.sheet_to_json(sheet, { defval: "" })\<close> is an object from header
  labels to cell values, here an association list in column order.
\<close>

type_synonym row = "(string \<times> string) list"

definition nameKeys :: "string list" where
  "nameKeys = [''name'', ''full name'', ''fullname'', ''nama'', ''nama lengkap'',
               ''your name'', ''participant name'']"

definition phoneKeys :: "string list" where
  "phoneKeys = [''phone'', ''phone number'', ''phonenumber'', ''mobile'', ''hp'', ''no hp'',
                ''no. hp'', ''nomor hp'', ''whatsapp'', ''no telepon'', ''handphone'']"

definition emailKeys :: "string list" where
  "emailKeys = [''email'', ''email address'', ''emailaddress'', ''e-mail'', ''gereja asal'',
                ''gereja'', ''asal gereja'', ''home church'', ''church'']"

text \<open>\<^verbatim>\<open>fk.includes(k)\<close>: \<open>k\<close> occurs in \<open>fk\<close> as a run of consecutive characters.\<close>

fun starts_with :: "string \<Rightarrow> string \<Rightarrow> bool" where
  "starts_with s [] = True"
| "starts_with [] (c # k) = False"
| "starts_with (x # s) (c # k) = (x = c \<and> starts_with s k)"

fun includes_str :: "string \<Rightarrow> string \<Rightarrow> bool" where
  "includes_str [] k = (k = [])"
| "includes_str (x # s) k = (starts_with (x # s) k \<or> includes_str s k)"

text \<open>
  \<^verbatim>\<open>
  const firstRowKeys = Object.keys(firstRow).map((k) => k.toLowerCase().trim());
  const findKey = (keys) => {
    for (const k of keys) {
      const found = firstRowKeys.find((fk) => fk === k || fk.includes(k));
      if (found)
        return Object.keys(firstRow).find(
          (ok) => ok.toLowerCase().trim() === found || ok.toLowerCase().trim().includes(k));
    }
    return null;
  };
  \<close>
\<close>

fun findKey_loop :: "string list \<Rightarrow> string list \<Rightarrow> string list \<Rightarrow> string option" where
  "findKey_loop firstRowKeys objectKeys [] = None"
| "findKey_loop firstRowKeys objectKeys (k # keys) =
     (let found = find (\<lambda>fk. fk = k \<or> includes_str fk k) firstRowKeys in
      if truthy found then
        find (\<lambda>ok. trim (toLowerCase ok) = the found \<or> includes_str (trim (toLowerCase ok)) k)
          objectKeys
      else findKey_loop firstRowKeys objectKeys keys)"

definition findKey :: "row \<Rightarrow> string list \<Rightarrow> string option" where
  "findKey firstRow keys =
     findKey_loop (map (\<lambda>k. trim (toLowerCase k)) (map fst firstRow)) (map fst firstRow) keys"

text \<open>\<^verbatim>\<open>row[key]?.toString().trim()\<close>\<close>

definition cell :: "row \<Rightarrow> string \<Rightarrow> string option" where
  "cell r key = map_option trim (map_of r key)"

section \<open>The import loop\<close>

record import_state =
  tx :: db
  imported :: nat
  skipped :: nat
  duplicates :: "duplicate_candidate list"

text \<open>
  The body of \<^verbatim>\<open>for (const row of rows)\<close> between \<^verbatim>\<open>BEGIN\<close> and \<^verbatim>\<open>COMMIT\<close>.
  The queries run on the transaction's client, so they see the rows inserted earlier in
  the loop. \<open>i\<close> is the position of the row in \<open>rows\<close>, which is what
  \<^verbatim>\<open>rows.indexOf(row)\<close> gives for the row objects of a sheet. An error raised by an
  insert ends the loop.
\<close>

fun import_rows ::
  "nat \<Rightarrow> nat \<Rightarrow> string \<Rightarrow> string option \<Rightarrow> string option \<Rightarrow> nat \<Rightarrow> row list
     \<Rightarrow> import_state \<Rightarrow> error + import_state" where
  "import_rows now eventId nameKey phoneKey emailKey i [] st = Inr st"
| "import_rows now eventId nameKey phoneKey emailKey i (r # rows) st =
     (let name = cell r nameKey;
          phone = (if truthy phoneKey then cell r (the phoneKey) else None);
          email = (if truthy emailKey then cell r (the emailKey) else None)
      in
        if \<not> truthy name then
          import_rows now eventId nameKey phoneKey emailKey (Suc i) rows
            (st\<lparr>skipped := Suc (skipped st)\<rparr>)
        else
          (case duplicateMatch (tx st) eventId (the name) phone of
             Some m \<Rightarrow>
               import_rows now eventId nameKey phoneKey emailKey (Suc i) rows
                 (st\<lparr>duplicates := duplicates st @
                    [\<lparr>c_name = the name, c_phone = phone, c_email = email,
                      c_rowIndex = i + 2, c_matchedBy = matchedBy m,
                      c_existingName = existingName m,
                      c_existingPhone = existingPhone m\<rparr>]\<rparr>)
           | None \<Rightarrow>
               (case insert_attendee (tx st) now eventId (the name) (or_null phone)
                       (or_null email) SourceImport of
                  Inl err \<Rightarrow> Inl err
                | Inr (a, d') \<Rightarrow>
                    import_rows now eventId nameKey phoneKey emailKey (Suc i) rows
                      (st\<lparr>tx := d', imported := Suc (imported st)\<rparr>))))"

section \<open>The route handlers\<close>

text \<open>
  Each handler takes the database, the time and the request, and gives the response, the
  database afterwards and the messages sent to the event's room. The event identifier of
  the path is a number.
\<close>

subsection \<open>\<^verbatim>\<open>POST /\<close>: create one attendee\<close>

text \<open>
  \<^verbatim>\<open>body("name").notEmpty().trim()\<close> rejects a missing or empty name and then trims it;
  \<^verbatim>\<open>body("phone_number").optional().trim()\<close> trims a phone number that is present.
  \<^verbatim>\<open>
  const eventCheck = await pool.query("SELECT is_finished FROM events WHERE id = $1", [eventId]);
  if (eventCheck.rows[0]?.is_finished) return res.status(403).json(...);
  const result = await pool.query(`INSERT INTO attendees (...) VALUES ($1, $2, $3, $4, 'manual')
     RETURNING *`, [eventId, name, phone_number || null, email || null]);
  const stats = await getEventStats(eventId);
  emitToEvent(req, eventId, "attendee:added", { eventId, attendee: result.rows[0], stats });
  res.status(201).json({ success: true, data: result.rows[0] });
  } catch (err) { res.status(500).json({ success: false, message: "Server error" }); }
  \<close>
\<close>

record add_body =
  b_name :: "string option"
  b_phone_number :: "string option"
  b_email :: "string option"

definition add_attendee :: "db \<Rightarrow> nat \<Rightarrow> nat \<Rightarrow> add_body \<Rightarrow> result" where
  "add_attendee d now eventId b =
     (if \<not> truthy (b_name b) then reply d 400 False ErrorsBody
      else
        let name = trim (the (b_name b));
            phone_number = map_option trim (b_phone_number b);
            email = b_email b
        in
          if first_is_finished (eventCheck d eventId) then
            reply d 403 False
              (MessageBody ''This event has been finished. Adding attendees is disabled.'')
          else
            (case insert_attendee d now eventId name (or_null phone_number) (or_null email)
                    SourceManual of
               Inl err \<Rightarrow> reply d 500 False (MessageBody ''Server error'')
             | Inr (a, d') \<Rightarrow>
                 reply_emit d' 201 True (DataBody a)
                   \<lparr>room = eventId, event_name = ''attendee:added'',
                    payload = AttendeeEvent a (getEventStats d' eventId)\<rparr>))"

subsection \<open>\<^verbatim>\<open>POST /import\<close>: import a CSV or Excel file\<close>

text \<open>
  The transaction: \<^verbatim>\<open>BEGIN\<close>, the loop, \<^verbatim>\<open>COMMIT\<close>, the statistics, the broadcast
  and the response; on an error \<^verbatim>\<open>ROLLBACK\<close>, which gives back the database of before
  \<^verbatim>\<open>BEGIN\<close>, and the rethrown error reaches the outer \<^verbatim>\<open>catch\<close>, which answers 500.
\<close>

definition import_loop :: "db \<Rightarrow> nat \<Rightarrow> nat \<Rightarrow> row list \<Rightarrow> error + import_state" where
  "import_loop d now eventId rows =
     (let firstRow = hd rows in
      import_rows now eventId (the (findKey firstRow nameKeys)) (findKey firstRow phoneKeys)
        (findKey firstRow emailKeys) 0 rows
        \<lparr>tx = d, imported = 0, skipped = 0, duplicates = []\<rparr>)"

definition import_transaction :: "db \<Rightarrow> nat \<Rightarrow> nat \<Rightarrow> row list \<Rightarrow> result" where
  "import_transaction d now eventId rows =
     (case import_loop d now eventId rows of
        Inl err \<Rightarrow> reply d 500 False (FailureBody ''Error processing file: '' err)
      | Inr st \<Rightarrow>
          reply_emit (tx st) 200 True (ImportBody (imported st) (skipped st) (duplicates st))
            \<lparr>room = eventId, event_name = ''attendees:imported'',
             payload = ImportedEvent (imported st) (skipped st)
                         (getEventStats (tx st) eventId)\<rparr>)"

text \<open>
  The upload: no file (\<^verbatim>\<open>!req.file\<close>), a file that \<^verbatim>\<open>XLSX.read\<close> or
  \<^verbatim>\<open>sheet_to_json\<close> raises on, or the rows of the first sheet.
\<close>

datatype upload = NoFile | Unreadable | Sheet "row list"

definition import_attendees :: "db \<Rightarrow> nat \<Rightarrow> nat \<Rightarrow> upload \<Rightarrow> result" where
  "import_attendees d now eventId file =
     (case file of
        NoFile \<Rightarrow> reply d 400 False (MessageBody ''No file uploaded'')
      | Unreadable \<Rightarrow>
          if first_is_finished (eventCheck d eventId) then
            reply d 403 False
              (MessageBody ''This event has been finished. Importing attendees is disabled.'')
          else reply d 500 False (FailureBody ''Error processing file: '' UnreadableFile)
      | Sheet rows \<Rightarrow>
          if first_is_finished (eventCheck d eventId) then
            reply d 403 False
              (MessageBody ''This event has been finished. Importing attendees is disabled.'')
          else if rows = [] then
            reply d 400 False (MessageBody ''File is empty or has no data'')
          else if \<not> truthy (findKey (hd rows) nameKeys) then
            reply d 400 False
              (NoNameColumnBody
                 (''Could not find a name column. Please ensure your file has a column named ''
                  @ [CHR 0x22] @ ''Name'' @ [CHR 0x22] @ '' or '' @ [CHR 0x22] @ ''Nama''
                  @ [CHR 0x22] @ ''.'')
                 (map fst (hd rows)))
          else import_transaction d now eventId rows)"

subsection \<open>\<^verbatim>\<open>POST /import-duplicates\<close>: import the approved duplicates\<close>

text \<open>
  \<^verbatim>\<open>
  for (const dup of duplicates) {
    const { name, phone, email } = dup;
    if (!name) continue;
    await client.query(`INSERT INTO attendees (...) VALUES ($1, $2, $3, $4, 'import')`,
      [eventId, name, phone || null, email || null]);
    imported++;
  }
  \<close>
\<close>

record dup_item =
  dup_name :: "string option"
  dup_phone :: "string option"
  dup_email :: "string option"

fun import_duplicates_rows ::
  "nat \<Rightarrow> nat \<Rightarrow> dup_item list \<Rightarrow> db \<times> nat \<Rightarrow> error + (db \<times> nat)" where
  "import_duplicates_rows now eventId [] st = Inr st"
| "import_duplicates_rows now eventId (dup # dups) st =
     (if \<not> truthy (dup_name dup) then import_duplicates_rows now eventId dups st
      else
        (case insert_attendee (fst st) now eventId (the (dup_name dup)) (or_null (dup_phone dup))
                (or_null (dup_email dup)) SourceImport of
           Inl err \<Rightarrow> Inl err
         | Inr (a, d') \<Rightarrow> import_duplicates_rows now eventId dups (d', Suc (snd st))))"

text \<open>The body field \<^verbatim>\<open>duplicates\<close> is \<open>None\<close> when it is missing or not an array.\<close>

definition import_duplicates :: "db \<Rightarrow> nat \<Rightarrow> nat \<Rightarrow> dup_item list option \<Rightarrow> result" where
  "import_duplicates d now eventId dups =
     (case dups of
        None \<Rightarrow> reply d 400 False (MessageBody ''No duplicates provided'')
      | Some dupList \<Rightarrow>
          if first_is_finished (eventCheck d eventId) then
            reply d 403 False
              (MessageBody ''This event has been finished. Importing attendees is disabled.'')
          else
            (case import_duplicates_rows now eventId dupList (d, 0) of
               Inl err \<Rightarrow> reply d 500 False (FailureBody ''Error importing duplicates: '' err)
             | Inr (d', n) \<Rightarrow>
                 reply_emit d' 200 True (ImportedBody n)
                   \<lparr>room = eventId, event_name = ''attendees:imported'',
                    payload = ImportedEvent n 0 (getEventStats d' eventId)\<rparr>))"

subsection \<open>\<^verbatim>\<open>PATCH /:attendeeId/checkin\<close> and \<^verbatim>\<open>PATCH /:attendeeId/undo-checkin\<close>\<close>

text \<open>
  The attendee identifier has passed \<^verbatim>\<open>param("attendeeId").isInt()\<close>. The check-in:
  \<^verbatim>\<open>
  if (eventCheck.rows.length === 0) return res.status(404).json({ message: "Event not found" });
  if (eventCheck.rows[0].is_finished) return res.status(403).json(...);
  const current = await pool.query("SELECT * FROM attendees WHERE id = $1 AND event_id = $2", ...);
  if (current.rows.length === 0) return res.status(404).json({ message: "Attendee not found" });
  const attendee = current.rows[0];
  if (attendee.checked_in)
    return res.status(409).json({ success: false,
      message: `${attendee.name} is already checked in`, data: attendee });
  const result = await pool.query(`UPDATE attendees SET checked_in = TRUE, checked_in_at = NOW(),
     updated_at = NOW() WHERE id = $1 AND event_id = $2 RETURNING *`, ...);
  \<close>
\<close>

definition is_attendee :: "nat \<Rightarrow> nat \<Rightarrow> attendee \<Rightarrow> bool" where
  "is_attendee attendeeId eventId a \<longleftrightarrow> a_id a = attendeeId \<and> a_event_id a = eventId"

definition set_checked_in :: "nat \<Rightarrow> attendee \<Rightarrow> attendee" where
  "set_checked_in now a = a\<lparr>a_checked_in := True, a_checked_in_at := Some now, a_updated_at := now\<rparr>"

definition set_unchecked :: "nat \<Rightarrow> attendee \<Rightarrow> attendee" where
  "set_unchecked now a = a\<lparr>a_checked_in := False, a_checked_in_at := None, a_updated_at := now\<rparr>"

definition check_in :: "db \<Rightarrow> nat \<Rightarrow> nat \<Rightarrow> nat \<Rightarrow> result" where
  "check_in d now eventId attendeeId =
     (case eventCheck d eventId of
        [] \<Rightarrow> reply d 404 False (MessageBody ''Event not found'')
      | finished # _ \<Rightarrow>
          if finished then
            reply d 403 False
              (MessageBody (''This event has been finished. Check-in is disabled. ''
                            @ ''Restart the event to allow check-ins again.''))
          else
            (case filter (is_attendee attendeeId eventId) (attendees d) of
               [] \<Rightarrow> reply d 404 False (MessageBody ''Attendee not found'')
             | attendee # _ \<Rightarrow>
                 if a_checked_in attendee then
                   reply d 409 False
                     (MessageDataBody (a_name attendee @ '' is already checked in'') attendee)
                 else
                   (case update_attendees (is_attendee attendeeId eventId) (set_checked_in now) d of
                      (d', []) \<Rightarrow> reply d' 500 False (MessageBody ''Server error'')
                    | (d', r # _) \<Rightarrow>
                        reply_emit d' 200 True
                          (MessageDataBody (a_name r @ '' checked in successfully!'') r)
                          \<lparr>room = eventId, event_name = ''attendee:checked_in'',
                           payload = AttendeeEvent r (getEventStats d' eventId)\<rparr>)))"

text \<open>
  The undo has no check of the event:
  \<^verbatim>\<open>
  const result = await pool.query(`UPDATE attendees SET checked_in = FALSE, checked_in_at = NULL,
     updated_at = NOW() WHERE id = $1 AND event_id = $2 RETURNING *`, [attendeeId, eventId]);
  if (result.rows.length === 0) return res.status(404).json({ message: "Attendee not found" });
  \<close>
\<close>

definition undo_check_in :: "db \<Rightarrow> nat \<Rightarrow> nat \<Rightarrow> nat \<Rightarrow> result" where
  "undo_check_in d now eventId attendeeId =
     (case update_attendees (is_attendee attendeeId eventId) (set_unchecked now) d of
        (d', []) \<Rightarrow> reply d' 404 False (MessageBody ''Attendee not found'')
      | (d', r # _) \<Rightarrow>
          reply_emit d' 200 True (MessageDataBody ''Check-in undone'' r)
            \<lparr>room = eventId, event_name = ''attendee:unchecked'',
             payload = AttendeeEvent r (getEventStats d' eventId)\<rparr>)"

subsection \<open>\<^verbatim>\<open>DELETE /:attendeeId\<close> and \<^verbatim>\<open>DELETE /\<close>\<close>

text \<open>
  \<^verbatim>\<open>
  router.delete("/:attendeeId", ...
    if (eventCheck.rows[0]?.is_finished) return res.status(403).json(...);
    const result = await pool.query(
      "DELETE FROM attendees WHERE id = $1 AND event_id = $2 RETURNING *", ...);
    if (result.rows.length === 0) return res.status(404).json({ message: "Attendee not found" });
  router.delete("/", async (req, res) => {
    await pool.query("DELETE FROM attendees WHERE event_id = $1", [eventId]);
    emitToEvent(req, eventId, "attendees:cleared",
      { eventId, stats: { total_attendees: 0, checked_in_count: 0 } });
    res.json({ success: true, message: "All attendees cleared" });
  \<close>
\<close>

definition delete_attendee :: "db \<Rightarrow> nat \<Rightarrow> nat \<Rightarrow> result" where
  "delete_attendee d eventId attendeeId =
     (if first_is_finished (eventCheck d eventId) then
        reply d 403 False
          (MessageBody ''This event has been finished. Deleting attendees is disabled.'')
      else
        (case delete_attendees (is_attendee attendeeId eventId) d of
           (d', []) \<Rightarrow> reply d' 404 False (MessageBody ''Attendee not found'')
         | (d', r # _) \<Rightarrow>
             reply_emit d' 200 True (MessageBody ''Attendee deleted'')
               \<lparr>room = eventId, event_name = ''attendee:deleted'',
                payload = DeletedEvent attendeeId (getEventStats d' eventId)\<rparr>))"

definition clear_attendees :: "db \<Rightarrow> nat \<Rightarrow> result" where
  "clear_attendees d eventId =
     (case delete_attendees (\<lambda>a. a_event_id a = eventId) d of
        (d', _) \<Rightarrow>
          reply_emit d' 200 True (MessageBody ''All attendees cleared'')
            \<lparr>room = eventId, event_name = ''attendees:cleared'',
             payload = ClearedEvent \<lparr>total_attendees = 0, checked_in_count = 0\<rparr>\<rparr>)"

section \<open>Example data\<close>

text \<open>An event with one attendee, used where a theorem is shown at a concrete input.\<close>

abbreviation (input) ex_john :: attendee where
  "ex_john \<equiv> \<lparr>a_id = 1, a_event_id = 1, a_name = ''John Doe'',
     a_phone_number = Some ''0812345678'', a_email = None, a_checked_in = False,
     a_checked_in_at = None, a_source = SourceManual, a_created_at = 0, a_updated_at = 0\<rparr>"

abbreviation (input) ex_db :: db where
  "ex_db \<equiv> \<lparr>events = [\<lparr>e_id = 1, e_is_finished = False\<rparr>], attendees = [ex_john],
     attendees_id_seq = 2\<rparr>"

abbreviation (input) ex_finished_db :: db where
  "ex_finished_db \<equiv> \<lparr>events = [\<lparr>e_id = 1, e_is_finished = True\<rparr>], attendees = [ex_john],
     attendees_id_seq = 2\<rparr>"

text \<open>An event whose one attendee has a stored phone with separators.\<close>

abbreviation (input) ex_mary :: attendee where
  "ex_mary \<equiv> \<lparr>a_id = 1, a_event_id = 1, a_name = ''Mary-Ann Lee'',
     a_phone_number = Some ''0813-555 000'', a_email = None, a_checked_in = False,
     a_checked_in_at = None, a_source = SourceManual, a_created_at = 0, a_updated_at = 0\<rparr>"

abbreviation (input) ex_mary_db :: db where
  "ex_mary_db \<equiv> \<lparr>events = [\<lparr>e_id = 1, e_is_finished = False\<rparr>], attendees = [ex_mary],
     attendees_id_seq = 2\<rparr>"

section \<open>Properties of the normalization utilities\<close>

text \<open>
  The character classes by code: \<^verbatim>\<open>\d\<close> is the range 48 to 57, \<^verbatim>\<open>[a-z0-9]\<close> adds the
  range 97 to 122. Trimming removes nothing that the later replacement would keep, so the
  name key is the lower-cased name without the characters outside \<^verbatim>\<open>[a-z0-9]\<close>, which is
  also what the database computes for a stored name.
\<close>



lemma toLowerCase_char_lower_alnum: "is_lower_alnum c \<Longrightarrow> toLowerCase_char c = c"
  unfolding is_lower_alnum_def by (elim rev_mp) (auto simp: toLowerCase_char_def)

lemma space_not_lower_alnum: "is_space c \<Longrightarrow> \<not> is_lower_alnum (toLowerCase_char c)"
  unfolding is_space_def by (elim rev_mp) (auto simp: toLowerCase_char_def is_lower_alnum_def)

lemma filter_dropWhile_space:
  "(\<And>c. is_space c \<Longrightarrow> \<not> P c) \<Longrightarrow> filter P (dropWhile is_space s) = filter P s"
  by (induction s) auto

lemma filter_trim:
  assumes "\<And>c. is_space c \<Longrightarrow> \<not> P c"
  shows "filter P (trim s) = filter P s"
proof -
  have "filter P (trim s) = rev (filter P (dropWhile is_space (rev (dropWhile is_space s))))"
    by (simp add: trim_def rev_filter)
  also have "\<dots> = rev (filter P (rev (dropWhile is_space s)))"
    using assms by (simp add: filter_dropWhile_space)
  also have "\<dots> = filter P (dropWhile is_space s)"
    by (simp add: rev_filter)
  also have "\<dots> = filter P s"
    using assms by (simp add: filter_dropWhile_space)
  finally show ?thesis .
qed

lemma normalizeName_Some: "normalizeName (Some s) = filter is_lower_alnum (map toLowerCase_char s)"
proof (cases "s = []")
  case True
  then show ?thesis by (simp add: normalizeName_def truthy_def)
next
  case False
  have "filter is_lower_alnum (map toLowerCase_char (trim s))
          = map toLowerCase_char (filter (is_lower_alnum \<circ> toLowerCase_char) (trim s))"
    by (simp add: filter_map)
  also have "\<dots> = map toLowerCase_char (filter (is_lower_alnum \<circ> toLowerCase_char) s)"
    by (simp add: filter_trim space_not_lower_alnum)
  also have "\<dots> = filter is_lower_alnum (map toLowerCase_char s)"
    by (simp add: filter_map)
  finally show ?thesis
    using False by (simp add: normalizeName_def truthy_def toLowerCase_def)
qed

lemma normalizeName_None: "normalizeName None = []"
  by (simp add: normalizeName_def truthy_def)

lemma normalizeName_chars: "list_all is_lower_alnum (normalizeName x)"
  by (cases x) (simp_all add: normalizeName_None normalizeName_Some list_all_iff)

lemma normalizeName_fixed: "list_all is_lower_alnum s \<Longrightarrow> normalizeName (Some s) = s"
  by (induction s) (simp_all add: normalizeName_Some toLowerCase_char_lower_alnum)

lemma sql_lower_alnum_normalizeName: "sql_lower_alnum s = normalizeName (Some s)"
  by (simp add: sql_lower_alnum_def normalizeName_Some)

lemma normalizePhone_Some: "s \<noteq> [] \<Longrightarrow> normalizePhone (Some s) = Some (filter is_digit s)"
  by (simp add: normalizePhone_def truthy_def)


lemma char_from_code: "(of_char c :: nat) = of_char d \<Longrightarrow> c = d"
  by simp

lemma of_char_cases:
  assumes "lo \<le> (of_char c :: nat)" "(of_char c :: nat) \<le> hi"
  shows "c \<in> set (map char_of [lo..<Suc hi])"
proof -
  have "of_char c \<in> set [lo..<Suc hi]" using assms by auto
  then have "char_of (of_char c :: nat) \<in> set (map char_of [lo..<Suc hi])"
    unfolding set_map by (rule imageI)
  then show ?thesis by simp
qed

lemma digit_codes: "map char_of [48..<Suc 57] = ''0123456789''"
  by code_simp

lemma letter_codes: "map char_of [97..<Suc 122] = ''abcdefghijklmnopqrstuvwxyz''"
  by code_simp

lemma is_digit_iff: "is_digit c \<longleftrightarrow> 48 \<le> (of_char c :: nat) \<and> (of_char c :: nat) \<le> 57"
proof
  assume "is_digit c" then show "48 \<le> (of_char c :: nat) \<and> (of_char c :: nat) \<le> 57"
    by (auto simp: is_digit_def)
next
  assume "48 \<le> (of_char c :: nat) \<and> (of_char c :: nat) \<le> 57"
  then have "c \<in> set (map char_of [48..<Suc 57])" by (intro of_char_cases) auto
  then show "is_digit c" by (simp only: digit_codes is_digit_def)
qed

lemma is_lower_alnum_iff:
  "is_lower_alnum c \<longleftrightarrow>
     (97 \<le> (of_char c :: nat) \<and> (of_char c :: nat) \<le> 122)
     \<or> (48 \<le> (of_char c :: nat) \<and> (of_char c :: nat) \<le> 57)"
proof
  assume "is_lower_alnum c"
  then show "(97 \<le> (of_char c :: nat) \<and> (of_char c :: nat) \<le> 122)
     \<or> (48 \<le> (of_char c :: nat) \<and> (of_char c :: nat) \<le> 57)"
    by (auto simp: is_lower_alnum_def)
next
  assume "(97 \<le> (of_char c :: nat) \<and> (of_char c :: nat) \<le> 122)
     \<or> (48 \<le> (of_char c :: nat) \<and> (of_char c :: nat) \<le> 57)"
  then have "c \<in> set (map char_of [97..<Suc 122]) \<or> c \<in> set (map char_of [48..<Suc 57])"
    using of_char_cases by blast
  then have "c \<in> set (''abcdefghijklmnopqrstuvwxyz'' @ ''0123456789'')"
    by (simp only: digit_codes letter_codes set_append Un_iff)
  then show "is_lower_alnum c" by (simp add: is_lower_alnum_def)
qed

text \<open>
  C8. For every input string the result of \<open>normalizePhone\<close> holds digit characters
  only, namely the digits of the input in their order, and an empty or absent input gives
  the empty key, which this function represents by \<^verbatim>\<open>null\<close> (the value the import's
  test \<^verbatim>\<open>if (normPhone)\<close> takes as no key). The result of \<open>normalizeName\<close> holds
  characters of \<^verbatim>\<open>[a-z0-9]\<close> only, namely those of the lower-cased input in their order;
  an absent name gives the empty string.
\<close>

theorem normalize_output_characters:
  "normalizePhone None = None
   \<and> normalizePhone (Some []) = None
   \<and> (s \<noteq> [] \<longrightarrow>
        (\<exists>k. normalizePhone (Some s) = Some k
           \<and> (\<forall>c\<in>set k. 48 \<le> (of_char c :: nat) \<and> (of_char c :: nat) \<le> 57)
           \<and> subseq k s
           \<and> k = filter (\<lambda>c. 48 \<le> (of_char c :: nat) \<and> (of_char c :: nat) \<le> 57) s))
   \<and> normalizeName None = []
   \<and> (\<forall>c\<in>set (normalizeName x).
          (97 \<le> (of_char c :: nat) \<and> (of_char c :: nat) \<le> 122)
          \<or> (48 \<le> (of_char c :: nat) \<and> (of_char c :: nat) \<le> 57))
   \<and> subseq (normalizeName (Some s)) (toLowerCase s)
   \<and> normalizeName (Some s) =
       filter (\<lambda>c. (97 \<le> (of_char c :: nat) \<and> (of_char c :: nat) \<le> 122)
                  \<or> (48 \<le> (of_char c :: nat) \<and> (of_char c :: nat) \<le> 57)) (toLowerCase s)"
proof -
  have digit: "is_digit = (\<lambda>c. 48 \<le> (of_char c :: nat) \<and> (of_char c :: nat) \<le> 57)"
    by (rule ext) (rule is_digit_iff)
  have alnum: "is_lower_alnum =
      (\<lambda>c. (97 \<le> (of_char c :: nat) \<and> (of_char c :: nat) \<le> 122)
           \<or> (48 \<le> (of_char c :: nat) \<and> (of_char c :: nat) \<le> 57))"
    by (rule ext) (rule is_lower_alnum_iff)
  have p1: "normalizePhone None = None" "normalizePhone (Some []) = None"
    by (simp_all add: normalizePhone_def truthy_def)
  have p2: "\<exists>k. normalizePhone (Some s) = Some k
           \<and> (\<forall>c\<in>set k. 48 \<le> (of_char c :: nat) \<and> (of_char c :: nat) \<le> 57)
           \<and> subseq k s
           \<and> k = filter (\<lambda>c. 48 \<le> (of_char c :: nat) \<and> (of_char c :: nat) \<le> 57) s"
    if "s \<noteq> []"
    using that by (simp add: normalizePhone_Some digit)
  have n1: "\<forall>c\<in>set (normalizeName x).
          (97 \<le> (of_char c :: nat) \<and> (of_char c :: nat) \<le> 122)
          \<or> (48 \<le> (of_char c :: nat) \<and> (of_char c :: nat) \<le> 57)"
    using normalizeName_chars [of x] by (simp add: list_all_iff is_lower_alnum_iff)
  have n2: "normalizeName (Some s) = filter is_lower_alnum (toLowerCase s)"
    by (simp add: normalizeName_Some toLowerCase_def)
  have n3: "subseq (normalizeName (Some s)) (toLowerCase s)"
    by (simp add: n2)
  from p1 p2 normalizeName_None n1 n3 n2 [unfolded alnum] show ?thesis
    by blast
qed

theorem normalize_output_characters_witness:
  "normalizePhone (Some ''+62 812-345-678'') = Some ''62812345678''
   \<and> subseq ''62812345678'' ''+62 812-345-678''
   \<and> normalizeName (Some '' John.Doe 2'') = ''johndoe2''
   \<and> subseq ''johndoe2'' (toLowerCase '' John.Doe 2'')"
proof -
  have ne: "''+62 812-345-678'' \<noteq> []" by simp
  have f: "filter (\<lambda>c. 48 \<le> (of_char c :: nat) \<and> (of_char c :: nat) \<le> 57) ''+62 812-345-678''
             = ''62812345678''"
    by simp
  have g: "filter (\<lambda>c. (97 \<le> (of_char c :: nat) \<and> (of_char c :: nat) \<le> 122)
                  \<or> (48 \<le> (of_char c :: nat) \<and> (of_char c :: nat) \<le> 57))
             (toLowerCase '' John.Doe 2'') = ''johndoe2''"
    by (simp add: toLowerCase_def toLowerCase_char_def)
  note t = normalize_output_characters [of "''+62 812-345-678''" None]
  note u = normalize_output_characters [of "'' John.Doe 2''" None]
  from t ne obtain k where k: "normalizePhone (Some ''+62 812-345-678'') = Some k"
     "subseq k ''+62 812-345-678''"
     "k = filter (\<lambda>c. 48 \<le> (of_char c :: nat) \<and> (of_char c :: nat) \<le> 57) ''+62 812-345-678''"
    by blast
  from u have n: "subseq (normalizeName (Some '' John.Doe 2'')) (toLowerCase '' John.Doe 2'')"
     "normalizeName (Some '' John.Doe 2'') =
       filter (\<lambda>c. (97 \<le> (of_char c :: nat) \<and> (of_char c :: nat) \<le> 122)
                  \<or> (48 \<le> (of_char c :: nat) \<and> (of_char c :: nat) \<le> 57)) (toLowerCase '' John.Doe 2'')"
    by blast+
  from k f n g show ?thesis by (simp only:) 
qed

text \<open>
  C7. Normalizing a name twice gives what normalizing it once gives. For a phone number
  this holds whenever the first result is not the empty string; when it is the empty string
  (a non-empty input without a digit), the second result is \<^verbatim>\<open>null\<close>, so the two results
  differ as values although both are empty keys.
\<close>

theorem normalize_idempotent_up_to_null:
  "normalizeName (Some (normalizeName x)) = normalizeName x
   \<and> (normalizePhone y \<noteq> Some [] \<longrightarrow> normalizePhone (normalizePhone y) = normalizePhone y)
   \<and> (normalizePhone y = Some [] \<longrightarrow> normalizePhone (normalizePhone y) = None)"
proof -
  have name: "normalizeName (Some (normalizeName x)) = normalizeName x"
    by (rule normalizeName_fixed) (rule normalizeName_chars)
  have phone: "normalizePhone (normalizePhone y) = normalizePhone y" if "normalizePhone y \<noteq> Some []"
  proof (cases "truthy y")
    case True
    with that have "filter is_digit (the y) \<noteq> []"
      by (simp add: normalizePhone_def)
    with True show ?thesis
      by (simp add: normalizePhone_def truthy_def)
  next
    case False
    then show ?thesis by (simp add: normalizePhone_def truthy_def)
  qed
  have empty: "normalizePhone (normalizePhone y) = None" if "normalizePhone y = Some []"
    using that by (simp add: normalizePhone_def truthy_def)
  from name phone empty show ?thesis by blast
qed

text \<open>The theorem at a name, at a phone number with digits and at one without.\<close>

theorem normalize_idempotent_up_to_null_witness:
  "normalizeName (Some (normalizeName (Some ''John Doe''))) = normalizeName (Some ''John Doe'')
   \<and> normalizePhone (Some ''+62 812'') \<noteq> Some []
   \<and> normalizePhone (normalizePhone (Some ''+62 812'')) = normalizePhone (Some ''+62 812'')
   \<and> normalizePhone (Some ''abc'') = Some []
   \<and> normalizePhone (normalizePhone (Some ''abc'')) = None"
  using normalize_idempotent_up_to_null [of "Some ''John Doe''" "Some ''+62 812''"]
    normalize_idempotent_up_to_null [of "Some ''John Doe''" "Some ''abc''"]
  by (simp add: normalizePhone_def truthy_def is_digit_def)

text \<open>
  As the claim is written, for every input, it fails: \<^verbatim>\<open>normalizePhone("abc")\<close> is
  \<^verbatim>\<open>""\<close> and \<^verbatim>\<open>normalizePhone("")\<close> is \<^verbatim>\<open>null\<close>.
\<close>

theorem normalizePhone_not_idempotent:
  "normalizePhone (normalizePhone (Some ''abc'')) \<noteq> normalizePhone (Some ''abc'')"
  by (simp add: normalizePhone_def truthy_def is_digit_def)

section \<open>The duplicate check\<close>

text \<open>Evaluation of the model at concrete inputs unfolds these definitions.\<close>

lemmas eval_norm = normalizePhone_def normalizeName_def truthy_def is_digit_def
  is_lower_alnum_def toLowerCase_def toLowerCase_char_def trim_def is_space_def
  sql_strip_non_digits_def sql_lower_alnum_def or_null_def

lemmas eval_match = duplicateMatch_def phoneCheck_def nameCheck_def

lemmas eval_store = insert_attendee_def pg_varchar_def pg_varchar_null_def eventCheck_def
  first_is_finished_def getEventStats_def update_attendees_def delete_attendees_def
  reply_def reply_emit_def is_attendee_def set_checked_in_def set_unchecked_def has_nul_def

lemmas eval_import = import_attendees_def import_transaction_def import_loop_def findKey_def
  nameKeys_def phoneKeys_def emailKeys_def cell_def

lemma take1_filter_find:
  "take (Suc 0) (filter P xs) = (case find P xs of None \<Rightarrow> [] | Some a \<Rightarrow> [a])"
  by (induction xs) auto

lemma find_Some_ex: "(\<exists>a. find P xs = Some a) \<longleftrightarrow> (\<exists>a\<in>set xs. P a)"
  by (induction xs) auto

lemma sql_strip_non_digits_normalizePhone:
  "p \<noteq> [] \<Longrightarrow> sql_strip_non_digits (Some p) = normalizePhone (Some p)"
  by (simp add: sql_strip_non_digits_def normalizePhone_def truthy_def)

text \<open>The duplicate check in terms of the first attendee that meets each criterion.\<close>

lemma duplicateMatch_find:
  "duplicateMatch d eventId name phone =
     (case (if truthy (normalizePhone phone)
            then find (\<lambda>a. a_event_id a = eventId
                            \<and> sql_strip_non_digits (a_phone_number a) = normalizePhone phone)
                   (attendees d)
            else None) of
        Some a \<Rightarrow> Some \<lparr>matchedBy = MatchedByPhone, existingName = a_name a,
                         existingPhone = a_phone_number a\<rparr>
      | None \<Rightarrow>
          (case find (\<lambda>a. a_event_id a = eventId
                           \<and> sql_lower_alnum (a_name a) = normalizeName (Some name))
                  (attendees d) of
             Some a \<Rightarrow> Some \<lparr>matchedBy = MatchedByName, existingName = a_name a,
                              existingPhone = a_phone_number a\<rparr>
           | None \<Rightarrow> None))"
proof (cases "truthy (normalizePhone phone)")
  case True
  then have "Some (the (normalizePhone phone)) = normalizePhone phone"
    by (cases "normalizePhone phone") (simp_all add: truthy_def)
  with True show ?thesis
    by (simp add: duplicateMatch_def phoneCheck_def nameCheck_def take1_filter_find
          split: option.splits)
next
  case False
  then show ?thesis
    by (simp add: duplicateMatch_def nameCheck_def take1_filter_find split: option.splits)
qed

text \<open>
  The keys by character code, without the functions of the model: the phone key of a text
  is its characters with codes 48 to 57; the name key is the text with the codes 65 to 90
  moved up by 32 and then only the codes 97 to 122 and 48 to 57 kept.
\<close>

lemma char_eq_char_of: "c = char_of (n :: nat) \<longleftrightarrow> (of_char c :: nat) = n mod 256"
proof
  assume "c = char_of n"
  then show "(of_char c :: nat) = n mod 256" by simp
next
  assume "(of_char c :: nat) = n mod 256"
  then have "char_of (of_char c :: nat) = char_of (n mod 256)" by simp
  then show "c = char_of n" by simp
qed

lemma char_of_eq_char: "char_of (n :: nat) = c \<longleftrightarrow> (of_char c :: nat) = n mod 256"
  using char_eq_char_of [of c n] by auto

lemma capital_codes: "map char_of [65..<Suc 90] = ''ABCDEFGHIJKLMNOPQRSTUVWXYZ''"
  by code_simp

lemma toLowerCase_char_code:
  "toLowerCase_char c =
     (if 65 \<le> (of_char c :: nat) \<and> (of_char c :: nat) \<le> 90
      then char_of ((of_char c :: nat) + 32) else c)"
proof (cases "c \<in> set ''ABCDEFGHIJKLMNOPQRSTUVWXYZ''")
  case True
  then show ?thesis
    by (elim rev_mp) (auto simp: toLowerCase_char_def char_eq_char_of)
next
  case False
  then have "\<not> (65 \<le> (of_char c :: nat) \<and> (of_char c :: nat) \<le> 90)"
    using of_char_cases [of 65 c 90] by (simp only: capital_codes) blast
  moreover from False
  have "map_of (zip ''ABCDEFGHIJKLMNOPQRSTUVWXYZ'' ''abcdefghijklmnopqrstuvwxyz'') c = None"
    by (elim rev_mp) auto
  ultimately show ?thesis
    by (simp only: toLowerCase_char_def option.case if_False)
qed

lemma name_key_code:
  "sql_lower_alnum s =
     filter (\<lambda>c. (97 \<le> (of_char c :: nat) \<and> (of_char c :: nat) \<le> 122)
                \<or> (48 \<le> (of_char c :: nat) \<and> (of_char c :: nat) \<le> 57))
       (map (\<lambda>c. if 65 \<le> (of_char c :: nat) \<and> (of_char c :: nat) \<le> 90
                 then char_of ((of_char c :: nat) + 32) else c) s)"
proof -
  have "is_lower_alnum =
      (\<lambda>c. (97 \<le> (of_char c :: nat) \<and> (of_char c :: nat) \<le> 122)
           \<or> (48 \<le> (of_char c :: nat) \<and> (of_char c :: nat) \<le> 57))"
    by (rule ext) (rule is_lower_alnum_iff)
  moreover have "toLowerCase_char =
      (\<lambda>c. if 65 \<le> (of_char c :: nat) \<and> (of_char c :: nat) \<le> 90
           then char_of ((of_char c :: nat) + 32) else c)"
    by (rule ext) (rule toLowerCase_char_code)
  ultimately show ?thesis
    by (simp only: sql_lower_alnum_def)
qed

lemma phone_key_code:
  "filter is_digit p = filter (\<lambda>c. 48 \<le> (of_char c :: nat) \<and> (of_char c :: nat) \<le> 57) p"
  by (rule filter_cong) (simp_all add: is_digit_iff)

lemma normalizePhone_key:
  "normalizePhone phone =
     (if (case phone of None \<Rightarrow> True | Some p \<Rightarrow> p = []) then None
      else Some (filter (\<lambda>c. 48 \<le> (of_char c :: nat) \<and> (of_char c :: nat) \<le> 57)
                   (the phone)))"
  by (cases phone) (simp_all add: normalizePhone_def truthy_def phone_key_code)

lemma sql_strip_non_digits_key:
  "sql_strip_non_digits v = Some k \<longleftrightarrow>
     (\<exists>p. v = Some p
        \<and> filter (\<lambda>c. 48 \<le> (of_char c :: nat) \<and> (of_char c :: nat) \<le> 57) p = k)"
  by (cases v) (auto simp: sql_strip_non_digits_def phone_key_code)

text \<open>
  C4. The duplicate check takes its criteria in order and stops at the first match. The
  phone key of the candidate is the digits of its phone (empty for an absent or empty
  phone). When that key is non-empty and an attendee of the event has a stored phone with
  the same digits, the result is a match by phone with such an attendee, whatever the name
  is. Only otherwise the name keys are compared, and an attendee of the event whose stored
  name has the name key of the candidate gives a match by name. Otherwise there is no
  match.
\<close>

theorem duplicateMatch_phone_then_name:
  fixes d :: db and eventId :: nat and name name' :: string and phone :: "string option"
  defines "digits \<equiv> filter (\<lambda>c. 48 \<le> (of_char c :: nat) \<and> (of_char c :: nat) \<le> 57)"
  defines "nameKeyOf \<equiv> \<lambda>s.
             filter (\<lambda>c. (97 \<le> (of_char c :: nat) \<and> (of_char c :: nat) \<le> 122)
                        \<or> (48 \<le> (of_char c :: nat) \<and> (of_char c :: nat) \<le> 57))
               (map (\<lambda>c. if 65 \<le> (of_char c :: nat) \<and> (of_char c :: nat) \<le> 90
                         then char_of ((of_char c :: nat) + 32) else c) s)"
  defines "phoneKey \<equiv> (case phone of None \<Rightarrow> [] | Some p \<Rightarrow> digits p)"
  defines "byPhone \<equiv> \<lambda>a. a_event_id a = eventId
              \<and> (\<exists>p. a_phone_number a = Some p \<and> digits p = phoneKey)"
      and "byName \<equiv> \<lambda>a. a_event_id a = eventId \<and> nameKeyOf (a_name a) = nameKeyOf name"
  shows "(phoneKey \<noteq> [] \<and> (\<exists>a\<in>set (attendees d). byPhone a) \<longrightarrow>
            (\<exists>a\<in>set (attendees d). byPhone a
               \<and> duplicateMatch d eventId name phone =
                   Some \<lparr>matchedBy = MatchedByPhone, existingName = a_name a,
                         existingPhone = a_phone_number a\<rparr>)
            \<and> duplicateMatch d eventId name' phone = duplicateMatch d eventId name phone)
       \<and> (\<not> (phoneKey \<noteq> [] \<and> (\<exists>a\<in>set (attendees d). byPhone a))
            \<and> (\<exists>a\<in>set (attendees d). byName a) \<longrightarrow>
            (\<exists>a\<in>set (attendees d). byName a
               \<and> duplicateMatch d eventId name phone =
                   Some \<lparr>matchedBy = MatchedByName, existingName = a_name a,
                         existingPhone = a_phone_number a\<rparr>))
       \<and> (\<not> (phoneKey \<noteq> [] \<and> (\<exists>a\<in>set (attendees d). byPhone a))
            \<and> \<not> (\<exists>a\<in>set (attendees d). byName a) \<longrightarrow>
            duplicateMatch d eventId name phone = None)"
proof -
  let ?P = "\<lambda>a. a_event_id a = eventId
              \<and> sql_strip_non_digits (a_phone_number a) = normalizePhone phone"
  let ?N = "\<lambda>n a. a_event_id a = eventId
              \<and> sql_lower_alnum (a_name a) = normalizeName (Some n)"
  have tr: "truthy (normalizePhone phone) \<longleftrightarrow> phoneKey \<noteq> []"
    by (cases phone) (auto simp: normalizePhone_key truthy_def phoneKey_def digits_def)
  have key: "normalizePhone phone = Some phoneKey" if "phoneKey \<noteq> []"
    using that by (cases phone) (auto simp: normalizePhone_key phoneKey_def digits_def)
  have P: "?P a \<longleftrightarrow> byPhone a" if "phoneKey \<noteq> []" for a
    by (simp add: key [OF that] sql_strip_non_digits_key byPhone_def digits_def)
  have N: "?N n a \<longleftrightarrow> a_event_id a = eventId \<and> nameKeyOf (a_name a) = nameKeyOf n" for n a
    by (simp add: sql_lower_alnum_normalizeName [symmetric] name_key_code nameKeyOf_def)
  have findP: "find ?P xs = find byPhone xs" if "phoneKey \<noteq> []" for xs
    by (rule find_cong) (simp_all add: P [OF that])
  have findN: "find (?N name) xs = find byName xs" for xs
    by (rule find_cong) (simp_all add: N byName_def)
  have dm: "duplicateMatch d eventId n phone =
     (case (if phoneKey \<noteq> [] then find byPhone (attendees d) else None) of
        Some a \<Rightarrow> Some \<lparr>matchedBy = MatchedByPhone, existingName = a_name a,
                         existingPhone = a_phone_number a\<rparr>
      | None \<Rightarrow>
          (case find (?N n) (attendees d) of
             Some a \<Rightarrow> Some \<lparr>matchedBy = MatchedByName, existingName = a_name a,
                              existingPhone = a_phone_number a\<rparr>
           | None \<Rightarrow> None))" for n
    using findP by (simp add: duplicateMatch_find tr)
  have c1: "(\<exists>a\<in>set (attendees d). byPhone a
               \<and> duplicateMatch d eventId name phone =
                   Some \<lparr>matchedBy = MatchedByPhone, existingName = a_name a,
                         existingPhone = a_phone_number a\<rparr>)
            \<and> duplicateMatch d eventId name' phone = duplicateMatch d eventId name phone"
    if t: "phoneKey \<noteq> []" and e: "\<exists>a\<in>set (attendees d). byPhone a"
  proof -
    from e obtain a where a: "find byPhone (attendees d) = Some a"
      using find_Some_ex [of byPhone "attendees d"] by blast
    then have "a \<in> set (attendees d)" "byPhone a"
      by (auto simp: find_Some_iff)
    with a t show ?thesis
      by (auto simp: dm)
  qed
  have noPhone: "duplicateMatch d eventId name phone =
       (case find byName (attendees d) of
          None \<Rightarrow> None
        | Some a \<Rightarrow> Some \<lparr>matchedBy = MatchedByName, existingName = a_name a,
                           existingPhone = a_phone_number a\<rparr>)"
    if n: "\<not> (phoneKey \<noteq> [] \<and> (\<exists>a\<in>set (attendees d). byPhone a))"
  proof (cases "phoneKey \<noteq> []")
    case True
    with n have "find byPhone (attendees d) = None"
      by (simp add: find_None_iff)
    with True show ?thesis
      by (simp add: dm findN split: option.splits)
  next
    case False
    then show ?thesis
      by (simp add: dm findN split: option.splits)
  qed
  have c2: "\<exists>a\<in>set (attendees d). byName a
               \<and> duplicateMatch d eventId name phone =
                   Some \<lparr>matchedBy = MatchedByName, existingName = a_name a,
                         existingPhone = a_phone_number a\<rparr>"
    if n: "\<not> (phoneKey \<noteq> [] \<and> (\<exists>a\<in>set (attendees d). byPhone a))"
      and e: "\<exists>a\<in>set (attendees d). byName a"
  proof -
    from e obtain a where a: "find byName (attendees d) = Some a"
      using find_Some_ex [of byName "attendees d"] by blast
    then have "a \<in> set (attendees d)" "byName a"
      by (auto simp: find_Some_iff)
    with a noPhone [OF n] show ?thesis by auto
  qed
  have c3: "duplicateMatch d eventId name phone = None"
    if n: "\<not> (phoneKey \<noteq> [] \<and> (\<exists>a\<in>set (attendees d). byPhone a))"
      and e: "\<not> (\<exists>a\<in>set (attendees d). byName a)"
  proof -
    from e have "find byName (attendees d) = None"
      by (simp add: find_None_iff)
    with noPhone [OF n] show ?thesis by simp
  qed
  from c1 c2 c3 show ?thesis by blast
qed

text \<open>
  The three cases at a roster whose attendee Mary-Ann Lee has the stored phone
  0813-555 000: a candidate whose phone has the same digits in another format, a candidate
  with another phone and the same name in another spelling, and a candidate with neither.
\<close>

theorem duplicateMatch_phone_then_name_witness:
  "duplicateMatch ex_mary_db 1 ''Someone'' (Some ''(0813) 555000'') =
     Some \<lparr>matchedBy = MatchedByPhone, existingName = ''Mary-Ann Lee'',
           existingPhone = Some ''0813-555 000''\<rparr>
   \<and> duplicateMatch ex_mary_db 1 ''mary ann.LEE'' (Some ''+62 813'') =
     Some \<lparr>matchedBy = MatchedByName, existingName = ''Mary-Ann Lee'',
           existingPhone = Some ''0813-555 000''\<rparr>
   \<and> duplicateMatch ex_mary_db 1 ''Zed'' (Some []) = None"
proof -
  let ?digits = "filter (\<lambda>c. 48 \<le> (of_char c :: nat) \<and> (of_char c :: nat) \<le> 57)"
  let ?key = "\<lambda>s. filter (\<lambda>c. (97 \<le> (of_char c :: nat) \<and> (of_char c :: nat) \<le> 122)
                        \<or> (48 \<le> (of_char c :: nat) \<and> (of_char c :: nat) \<le> 57))
               (map (\<lambda>c. if 65 \<le> (of_char c :: nat) \<and> (of_char c :: nat) \<le> 90
                         then char_of ((of_char c :: nat) + 32) else c) s)"
  have d: "?digits ''0813-555 000'' = ''0813555000''"
    "?digits ''(0813) 555000'' = ''0813555000''"
    "?digits ''+62 813'' = ''62813''"
    by simp_all
  have k: "?key ''Mary-Ann Lee'' = ''maryannlee''" "?key ''mary ann.LEE'' = ''maryannlee''"
    "?key ''Someone'' = ''someone''" "?key ''Zed'' = ''zed''"
    by (simp_all add: char_of_eq_char)
  note t1 = duplicateMatch_phone_then_name
              [where phone = "Some ''(0813) 555000''" and d = ex_mary_db and eventId = 1
                 and name = "''Someone''" and name' = "''Someone''"]
  note t2 = duplicateMatch_phone_then_name
              [where phone = "Some ''+62 813''" and d = ex_mary_db and eventId = 1
                 and name = "''mary ann.LEE''" and name' = "''mary ann.LEE''"]
  note t3 = duplicateMatch_phone_then_name
              [where phone = "Some []" and d = ex_mary_db and eventId = 1
                 and name = "''Zed''" and name' = "''Zed''"]
  have r1: "duplicateMatch ex_mary_db 1 ''Someone'' (Some ''(0813) 555000'') =
     Some \<lparr>matchedBy = MatchedByPhone, existingName = ''Mary-Ann Lee'',
           existingPhone = Some ''0813-555 000''\<rparr>"
    using t1 by (simp add: d char_of_eq_char char_eq_char_of)
  have r2: "duplicateMatch ex_mary_db 1 ''mary ann.LEE'' (Some ''+62 813'') =
     Some \<lparr>matchedBy = MatchedByName, existingName = ''Mary-Ann Lee'',
           existingPhone = Some ''0813-555 000''\<rparr>"
    using t2 by (simp add: d char_of_eq_char char_eq_char_of)
  have r3: "duplicateMatch ex_mary_db 1 ''Zed'' (Some []) = None"
    using t3 by (simp add: char_of_eq_char char_eq_char_of)
  from r1 r2 r3 show ?thesis by simp
qed

section \<open>The import loop on one row\<close>

lemma duplicateMatch_by_name_exists:
  assumes "a \<in> set (attendees d)" "a_event_id a = eventId"
    and "sql_lower_alnum (a_name a) = normalizeName (Some name)"
  shows "duplicateMatch d eventId name phone \<noteq> None"
proof -
  from assms have "\<exists>b. find (\<lambda>a. a_event_id a = eventId
                           \<and> sql_lower_alnum (a_name a) = normalizeName (Some name))
                  (attendees d) = Some b"
    unfolding find_Some_ex by blast
  then show ?thesis
    by (auto simp: duplicateMatch_find split: option.splits)
qed

text \<open>A row whose duplicate check finds a match is withheld: nothing is inserted.\<close>

lemma import_rows_duplicate:
  assumes "cell r nameKey = Some n" "n \<noteq> []"
    and "duplicateMatch (tx st) eventId n
           (if truthy phoneKey then cell r (the phoneKey) else None) = Some m"
  shows "import_rows now eventId nameKey phoneKey emailKey i (r # rows) st =
           import_rows now eventId nameKey phoneKey emailKey (Suc i) rows
             (st\<lparr>duplicates := duplicates st @
                [\<lparr>c_name = n,
                  c_phone = (if truthy phoneKey then cell r (the phoneKey) else None),
                  c_email = (if truthy emailKey then cell r (the emailKey) else None),
                  c_rowIndex = i + 2, c_matchedBy = matchedBy m,
                  c_existingName = existingName m,
                  c_existingPhone = existingPhone m\<rparr>]\<rparr>)"
  using assms by (simp add: truthy_def Let_def)

text \<open>
  C3. An event holds the attendee John Doe with phone 0812345678, and an import row has
  the name john.doe and the phone +62 812-345-678. The phone keys, 62812345678 and
  0812345678, differ, so the phone criterion does not match the row with John Doe. The
  check then falls back to the names, which both normalize to johndoe: the row is
  reported as a duplicate and is not imported. It is matched by name unless another
  attendee of the event has the phone key 62812345678.
\<close>

theorem john_doe_row_is_flagged:
  assumes "a \<in> set (attendees (tx st))" "a_event_id a = eventId"
    and "a_name a = ''John Doe''" "a_phone_number a = Some ''0812345678''"
    and "cell r nameKey = Some ''john.doe''"
    and "truthy phoneKey" "cell r (the phoneKey) = Some ''+62 812-345-678''"
  shows "sql_strip_non_digits (a_phone_number a) = Some ''0812345678''
       \<and> normalizePhone (Some ''+62 812-345-678'') = Some ''62812345678''
       \<and> sql_lower_alnum (a_name a) = ''johndoe''
       \<and> normalizeName (Some ''john.doe'') = ''johndoe''
       \<and> (\<exists>c. import_rows now eventId nameKey phoneKey emailKey i [r] st =
                 Inr (st\<lparr>duplicates := duplicates st @ [c]\<rparr>)
              \<and> c_name c = ''john.doe'' \<and> c_phone c = Some ''+62 812-345-678''
              \<and> c_rowIndex c = i + 2
              \<and> ((\<forall>b\<in>set (attendees (tx st)).
                     \<not> (a_event_id b = eventId
                        \<and> sql_strip_non_digits (a_phone_number b) = Some ''62812345678''))
                   \<longrightarrow> c_matchedBy c = MatchedByName))"
proof -
  have keys: "sql_strip_non_digits (Some ''0812345678'') = Some ''0812345678''"
    "normalizePhone (Some ''+62 812-345-678'') = Some ''62812345678''"
    "sql_lower_alnum ''John Doe'' = ''johndoe''"
    "normalizeName (Some ''john.doe'') = ''johndoe''"
    by (simp_all add: eval_norm)
  let ?phone = "if truthy phoneKey then cell r (the phoneKey) else None"
  have phone: "?phone = Some ''+62 812-345-678''"
    using assms(6,7) by simp
  from assms(1-3) keys(3,4)
  have "duplicateMatch (tx st) eventId ''john.doe'' ?phone \<noteq> None"
    by (intro duplicateMatch_by_name_exists [of a]) simp_all
  then obtain m where m: "duplicateMatch (tx st) eventId ''john.doe'' ?phone = Some m"
    by blast
  let ?c = "\<lparr>c_name = ''john.doe'', c_phone = ?phone,
             c_email = (if truthy emailKey then cell r (the emailKey) else None),
             c_rowIndex = i + 2, c_matchedBy = matchedBy m,
             c_existingName = existingName m, c_existingPhone = existingPhone m\<rparr>"
  have run: "import_rows now eventId nameKey phoneKey emailKey i [r] st =
               Inr (st\<lparr>duplicates := duplicates st @ [?c]\<rparr>)"
    using import_rows_duplicate [OF assms(5) _ m, of now emailKey i "[]"] by simp
  have byname: "matchedBy m = MatchedByName"
    if "\<forall>b\<in>set (attendees (tx st)).
          \<not> (a_event_id b = eventId
             \<and> sql_strip_non_digits (a_phone_number b) = Some ''62812345678'')"
  proof -
    from that have "find (\<lambda>b. a_event_id b = eventId
         \<and> sql_strip_non_digits (a_phone_number b) = Some ''62812345678'') (attendees (tx st)) = None"
      by (simp add: find_None_iff)
    with m show ?thesis
      by (auto simp: duplicateMatch_find phone keys(2) split: option.splits if_splits)
  qed
  have "c_name ?c = ''john.doe'' \<and> c_phone ?c = Some ''+62 812-345-678''
        \<and> c_rowIndex ?c = i + 2
        \<and> ((\<forall>b\<in>set (attendees (tx st)).
               \<not> (a_event_id b = eventId
                  \<and> sql_strip_non_digits (a_phone_number b) = Some ''62812345678''))
             \<longrightarrow> c_matchedBy ?c = MatchedByName)"
    using byname phone by simp
  with run have "\<exists>c. import_rows now eventId nameKey phoneKey emailKey i [r] st =
                 Inr (st\<lparr>duplicates := duplicates st @ [c]\<rparr>)
              \<and> c_name c = ''john.doe'' \<and> c_phone c = Some ''+62 812-345-678''
              \<and> c_rowIndex c = i + 2
              \<and> ((\<forall>b\<in>set (attendees (tx st)).
                     \<not> (a_event_id b = eventId
                        \<and> sql_strip_non_digits (a_phone_number b) = Some ''62812345678''))
                   \<longrightarrow> c_matchedBy c = MatchedByName)"
    by blast
  with keys assms(3,4) show ?thesis by simp
qed

text \<open>The theorem at the roster that holds only John Doe.\<close>

theorem john_doe_row_is_flagged_witness:
  "(case import_rows 5 1 ''Name'' (Some ''Phone'') None 0
           [[(''Name'', ''john.doe''), (''Phone'', ''+62 812-345-678'')]]
           \<lparr>tx = ex_db, imported = 0, skipped = 0, duplicates = []\<rparr> of
      Inl err \<Rightarrow> False
    | Inr st \<Rightarrow> tx st = ex_db \<and> imported st = 0
        \<and> map c_name (duplicates st) = [''john.doe'']
        \<and> map c_matchedBy (duplicates st) = [MatchedByName])"
proof -
  let ?r = "[(''Name'', ''john.doe''), (''Phone'', ''+62 812-345-678'')]"
  let ?st = "\<lparr>tx = ex_db, imported = 0, skipped = 0, duplicates = []\<rparr>"
  have h: "ex_john \<in> set (attendees (tx ?st))" "a_event_id ex_john = 1"
    "a_name ex_john = ''John Doe''" "a_phone_number ex_john = Some ''0812345678''"
    "cell ?r ''Name'' = Some ''john.doe''" "truthy (Some ''Phone'')"
    "cell ?r (the (Some ''Phone'')) = Some ''+62 812-345-678''"
    by (simp_all add: cell_def trim_def is_space_def truthy_def)
  have other: "\<forall>b\<in>set (attendees (tx ?st)).
     \<not> (a_event_id b = 1 \<and> sql_strip_non_digits (a_phone_number b) = Some ''62812345678'')"
    by (simp add: eval_norm)
  from john_doe_row_is_flagged [OF h, of 5 None 0] other
  obtain c where "import_rows 5 1 ''Name'' (Some ''Phone'') None 0 [?r] ?st =
                    Inr (?st\<lparr>duplicates := duplicates ?st @ [c]\<rparr>)"
    "c_name c = ''john.doe''" "c_matchedBy c = MatchedByName"
    by blast
  then show ?thesis by simp
qed

text \<open>
  As the claim is written, the row is imported rather than flagged, it fails: the import of
  a sheet with that one row into the roster with John Doe imports nothing and reports the
  row as a duplicate matched by name.
\<close>

theorem john_doe_row_not_imported:
  "import_attendees ex_db 5 1
     (Sheet [[(''Name'', ''john.doe''), (''Phone'', ''+62 812-345-678'')]]) =
   \<lparr>resp = \<lparr>status = 200, success = True,
            body = ImportBody 0 0
              [\<lparr>c_name = ''john.doe'', c_phone = Some ''+62 812-345-678'', c_email = None,
                c_rowIndex = 2, c_matchedBy = MatchedByName, c_existingName = ''John Doe'',
                c_existingPhone = Some ''0812345678''\<rparr>]\<rparr>,
    store = ex_db,
    emitted = [\<lparr>room = 1, event_name = ''attendees:imported'',
                payload = ImportedEvent 0 0 \<lparr>total_attendees = 1, checked_in_count = 0\<rparr>\<rparr>]\<rparr>"
  by code_simp

section \<open>The import loop on several rows\<close>

lemma find_append_cases:
  "find P (xs @ ys) = (case find P xs of None \<Rightarrow> find P ys | Some x \<Rightarrow> Some x)"
  by (induction xs) auto

lemma sql_strip_or_null: "sql_strip_non_digits (or_null v) = normalizePhone v"
  by (cases v) (auto simp: sql_strip_non_digits_def or_null_def normalizePhone_def truthy_def)

text \<open>
  An insert that meets the constraints of the table (no code unit 0, the lengths of the
  columns, an event that exists) adds the row at the end.
\<close>

lemma insert_attendee_ok:
  assumes "eventId \<in> set (map e_id (events d))" "length name \<le> 255"
    and "case phone of None \<Rightarrow> True | Some p \<Rightarrow> length p \<le> 50"
    and "case email of None \<Rightarrow> True | Some m \<Rightarrow> length m \<le> 255"
    and "\<not> has_nul (Some name)" "\<not> has_nul phone" "\<not> has_nul email"
  shows "insert_attendee d now eventId name phone email src =
           Inr (\<lparr>a_id = attendees_id_seq d, a_event_id = eventId, a_name = name,
                  a_phone_number = phone, a_email = email, a_checked_in = False,
                  a_checked_in_at = None, a_source = src, a_created_at = now,
                  a_updated_at = now\<rparr>,
                d\<lparr>attendees := attendees d @
                     [\<lparr>a_id = attendees_id_seq d, a_event_id = eventId, a_name = name,
                       a_phone_number = phone, a_email = email, a_checked_in = False,
                       a_checked_in_at = None, a_source = src, a_created_at = now,
                       a_updated_at = now\<rparr>],
                   attendees_id_seq := Suc (attendees_id_seq d)\<rparr>)"
  using assms
  by (cases phone; cases email)
     (simp_all add: insert_attendee_def pg_varchar_def pg_varchar_null_def Let_def)

lemma or_null_fits:
  "(case v of None \<Rightarrow> True | Some p \<Rightarrow> length p \<le> k)
     \<Longrightarrow> (case or_null v of None \<Rightarrow> True | Some p \<Rightarrow> length p \<le> k)"
  by (cases v) (simp_all add: or_null_def)

lemma or_null_has_nul: "\<not> has_nul v \<Longrightarrow> \<not> has_nul (or_null v)"
  by (cases v) (simp_all add: or_null_def has_nul_def)

text \<open>
  A trimmed text does not end with a space, so when its insert succeeds nothing of it was
  cut off: the stored value is the value given.
\<close>

lemma trim_no_trailing_space: "trim s = [] \<or> \<not> is_space (last (trim s))"
proof (cases "dropWhile is_space (rev (dropWhile is_space s))")
  case Nil
  then show ?thesis by (simp add: trim_def)
next
  case (Cons x xs)
  then have "\<not> is_space x"
    using hd_dropWhile [of is_space "rev (dropWhile is_space s)"] by simp
  with Cons show ?thesis by (simp add: trim_def)
qed

lemma pg_varchar_no_trailing_space:
  assumes "pg_varchar k s = Inr s'" "s = [] \<or> last s \<noteq> CHR '' ''"
  shows "s' = s"
proof (cases "length s \<le> k")
  case True
  with assms(1) show ?thesis by (simp add: pg_varchar_def)
next
  case False
  then have "drop k s \<noteq> []" "last (drop k s) = last s" "s \<noteq> []"
    by auto
  then have "last s \<in> set (drop k s)"
    using last_in_set [of "drop k s"] by simp
  with assms(2) \<open>s \<noteq> []\<close> have "\<not> list_all (\<lambda>c. c = CHR '' '') (drop k s)"
    by (auto simp: list_all_iff)
  with False assms(1) show ?thesis by (simp add: pg_varchar_def)
qed

lemma cell_no_trailing_space: "cell r key = Some v \<Longrightarrow> v = [] \<or> last v \<noteq> CHR '' ''"
  using trim_no_trailing_space by (auto simp: cell_def is_space_def)

lemma insert_attendee_Inr:
  assumes "insert_attendee d now eventId name phone email src = Inr (a, d')"
  shows "attendees d' = attendees d @ [a]"
  using assms
  by (auto simp: insert_attendee_def Let_def split: if_splits sum.splits)

lemma insert_attendee_Inr_trimmed:
  assumes "insert_attendee d now eventId name phone email src = Inr (a, d')"
    and "name = [] \<or> last name \<noteq> CHR '' ''"
    and "case phone of None \<Rightarrow> True | Some p \<Rightarrow> p = [] \<or> last p \<noteq> CHR '' ''"
    and "case email of None \<Rightarrow> True | Some m \<Rightarrow> m = [] \<or> last m \<noteq> CHR '' ''"
  shows "a = \<lparr>a_id = attendees_id_seq d, a_event_id = eventId, a_name = name,
               a_phone_number = phone, a_email = email, a_checked_in = False,
               a_checked_in_at = None, a_source = src, a_created_at = now,
               a_updated_at = now\<rparr>
       \<and> d' = d\<lparr>attendees := attendees d @ [a],
                 attendees_id_seq := Suc (attendees_id_seq d)\<rparr>"
proof -
  from assms(1) obtain name' phone' email' where
    v: "pg_varchar 255 name = Inr name'" "pg_varchar_null 50 phone = Inr phone'"
       "pg_varchar_null 255 email = Inr email'"
    and r: "a = \<lparr>a_id = attendees_id_seq d, a_event_id = eventId, a_name = name',
                  a_phone_number = phone', a_email = email', a_checked_in = False,
                  a_checked_in_at = None, a_source = src, a_created_at = now,
                  a_updated_at = now\<rparr>"
           "d' = d\<lparr>attendees := attendees d @ [a],
                    attendees_id_seq := Suc (attendees_id_seq d)\<rparr>"
    by (auto simp: insert_attendee_def Let_def split: if_splits sum.splits)
  have "name' = name"
    using v(1) assms(2) by (rule pg_varchar_no_trailing_space)
  moreover have "phone' = phone"
    using v(2) assms(3)
    by (cases phone)
       (auto simp: pg_varchar_null_def split: sum.splits dest: pg_varchar_no_trailing_space)
  moreover have "email' = email"
    using v(3) assms(4)
    by (cases email)
       (auto simp: pg_varchar_null_def split: sum.splits dest: pg_varchar_no_trailing_space)
  ultimately show ?thesis using r by simp
qed

text \<open>A row without a match whose insert succeeds is imported.\<close>

lemma import_rows_insert:
  assumes "cell r nameKey = Some n" "n \<noteq> []"
    and "duplicateMatch (tx st) eventId n
           (if truthy phoneKey then cell r (the phoneKey) else None) = None"
    and "insert_attendee (tx st) now eventId n
           (or_null (if truthy phoneKey then cell r (the phoneKey) else None))
           (or_null (if truthy emailKey then cell r (the emailKey) else None))
           SourceImport = Inr (a, d')"
  shows "import_rows now eventId nameKey phoneKey emailKey i (r # rows) st =
           import_rows now eventId nameKey phoneKey emailKey (Suc i) rows
             (st\<lparr>tx := d', imported := Suc (imported st)\<rparr>)"
  using assms by (simp add: truthy_def Let_def)

text \<open>A row without a match whose insert raises ends the loop with the error.\<close>

lemma import_rows_insert_fails:
  assumes "cell r nameKey = Some n" "n \<noteq> []"
    and "duplicateMatch (tx st) eventId n
           (if truthy phoneKey then cell r (the phoneKey) else None) = None"
    and "insert_attendee (tx st) now eventId n
           (or_null (if truthy phoneKey then cell r (the phoneKey) else None))
           (or_null (if truthy emailKey then cell r (the emailKey) else None))
           SourceImport = Inl err"
  shows "import_rows now eventId nameKey phoneKey emailKey i (r # rows) st = Inl err"
  using assms by (simp add: truthy_def Let_def)

text \<open>The loop over a list of rows is the loop over its first part and then over the rest.\<close>

lemma import_rows_append:
  "import_rows now eventId nameKey phoneKey emailKey i (xs @ ys) st =
     (case import_rows now eventId nameKey phoneKey emailKey i xs st of
        Inl err \<Rightarrow> Inl err
      | Inr st' \<Rightarrow> import_rows now eventId nameKey phoneKey emailKey (i + length xs) ys st')"
proof (induction xs arbitrary: i st)
  case Nil
  then show ?case by simp
next
  case (Cons r xs)
  let ?phone = "if truthy phoneKey then cell r (the phoneKey) else None"
  let ?email = "if truthy emailKey then cell r (the emailKey) else None"
  show ?case
  proof (cases "truthy (cell r nameKey)")
    case False
    then show ?thesis
      by (simp add: Cons.IH cong: sum.case_cong)
  next
    case True
    then obtain n where n: "cell r nameKey = Some n" "n \<noteq> []"
      by (cases "cell r nameKey") (simp_all add: truthy_def)
    show ?thesis
    proof (cases "duplicateMatch (tx st) eventId n ?phone")
      case (Some m)
      show ?thesis
        by (simp only: append_Cons import_rows_duplicate [OF n Some] Cons.IH)
           (simp cong: sum.case_cong)
    next
      case None
      show ?thesis
      proof (cases "insert_attendee (tx st) now eventId n (or_null ?phone) (or_null ?email)
                      SourceImport")
        case (Inl err)
        have "import_rows now eventId nameKey phoneKey emailKey i (r # rows) st = Inl err"
          for rows
          using n None Inl by (simp add: truthy_def Let_def)
        then show ?thesis by simp
      next
        case (Inr p)
        then obtain a d' where "insert_attendee (tx st) now eventId n (or_null ?phone)
                                  (or_null ?email) SourceImport = Inr (a, d')"
          by (cases p) simp
        from import_rows_insert [OF n None this] show ?thesis
          by (simp only: append_Cons Cons.IH) (simp cong: sum.case_cong)
      qed
    qed
  qed
qed

text \<open>The loop only adds: attendees at the end of the table, candidates at the end of the list.\<close>

lemma import_rows_grows:
  "import_rows now eventId nameKey phoneKey emailKey i rows st = Inr st'
     \<Longrightarrow> (\<exists>new. attendees (tx st') = attendees (tx st) @ new)
         \<and> (\<exists>more. duplicates st' = duplicates st @ more)"
proof (induction rows arbitrary: i st)
  case Nil
  then show ?case by simp
next
  case (Cons r rows)
  let ?phone = "if truthy phoneKey then cell r (the phoneKey) else None"
  let ?email = "if truthy emailKey then cell r (the emailKey) else None"
  show ?case
  proof (cases "truthy (cell r nameKey)")
    case False
    with Cons.prems
    have "import_rows now eventId nameKey phoneKey emailKey (Suc i) rows
            (st\<lparr>skipped := Suc (skipped st)\<rparr>) = Inr st'"
      by simp
    from Cons.IH [OF this] show ?thesis by simp
  next
    case True
    then obtain n where n: "cell r nameKey = Some n" "n \<noteq> []"
      by (cases "cell r nameKey") (simp_all add: truthy_def)
    show ?thesis
    proof (cases "duplicateMatch (tx st) eventId n ?phone")
      case (Some m)
      from Cons.prems have "import_rows now eventId nameKey phoneKey emailKey (Suc i) rows
             (st\<lparr>duplicates := duplicates st @
                [\<lparr>c_name = n, c_phone = ?phone, c_email = ?email,
                  c_rowIndex = i + 2, c_matchedBy = matchedBy m,
                  c_existingName = existingName m,
                  c_existingPhone = existingPhone m\<rparr>]\<rparr>) = Inr st'"
        by (simp only: import_rows_duplicate [OF n Some])
      from Cons.IH [OF this] show ?thesis by auto
    next
      case None
      show ?thesis
      proof (cases "insert_attendee (tx st) now eventId n (or_null ?phone) (or_null ?email)
                      SourceImport")
        case (Inl err)
        from import_rows_insert_fails [OF n None Inl] Cons.prems show ?thesis by simp
      next
        case (Inr p)
        then obtain a d' where ins: "insert_attendee (tx st) now eventId n (or_null ?phone)
                                  (or_null ?email) SourceImport = Inr (a, d')"
          by (cases p) simp
        from Cons.prems have "import_rows now eventId nameKey phoneKey emailKey (Suc i) rows
             (st\<lparr>tx := d', imported := Suc (imported st)\<rparr>) = Inr st'"
          by (simp only: import_rows_insert [OF n None ins])
        from Cons.IH [OF this] insert_attendee_Inr [OF ins] show ?thesis by auto
      qed
    qed
  qed
qed

section \<open>Two rows with the same name in one import\<close>

text \<open>
  C2. An import runs to its end without a storage error. Its file holds row A and, later,
  row B with the same non-empty name. When A is checked, no attendee of the event that the
  check sees (those of before the import and those inserted earlier in the pass) has that
  name key or a non-empty phone key equal to that of A. When B is checked, no attendee of
  the event other than the one inserted for A has a non-empty phone key equal to that of B.
  Then A is inserted, and the duplicate check of B, which sees the row inserted for A,
  reports B as a duplicate of A: by phone when the phone key of B is non-empty and equal to
  that of A, by name otherwise. B is not inserted and neither row is skipped. The response
  is 200, the committed roster holds the attendee of A and the reported duplicates hold the
  candidate of B.
\<close>

theorem same_name_rows_second_is_duplicate_of_first:
  fixes d :: db and rows pre mid post :: "row list" and rA rB :: row
    and st stM stF :: import_state and n :: string and now eventId :: nat
  defines "nameKey \<equiv> the (findKey (hd rows) nameKeys)"
      and "phoneKey \<equiv> findKey (hd rows) phoneKeys"
      and "emailKey \<equiv> findKey (hd rows) emailKeys"
  defines "phoneA \<equiv> (if truthy phoneKey then cell rA (the phoneKey) else None)"
      and "emailA \<equiv> (if truthy emailKey then cell rA (the emailKey) else None)"
      and "phoneB \<equiv> (if truthy phoneKey then cell rB (the phoneKey) else None)"
      and "emailB \<equiv> (if truthy emailKey then cell rB (the emailKey) else None)"
  defines "a \<equiv> \<lparr>a_id = attendees_id_seq (tx st), a_event_id = eventId, a_name = n,
                  a_phone_number = or_null phoneA, a_email = or_null emailA,
                  a_checked_in = False, a_checked_in_at = None, a_source = SourceImport,
                  a_created_at = now, a_updated_at = now\<rparr>"
  defines "st1 \<equiv> st\<lparr>tx := (tx st)\<lparr>attendees := attendees (tx st) @ [a],
                                    attendees_id_seq := Suc (attendees_id_seq (tx st))\<rparr>,
                     imported := Suc (imported st)\<rparr>"
  defines "c \<equiv> \<lparr>c_name = n, c_phone = phoneB, c_email = emailB,
                  c_rowIndex = length pre + length mid + 3,
                  c_matchedBy =
                    (if truthy (normalizePhone phoneB)
                        \<and> normalizePhone phoneB = normalizePhone phoneA
                     then MatchedByPhone else MatchedByName),
                  c_existingName = n, c_existingPhone = or_null phoneA\<rparr>"
  assumes reach: "\<not> first_is_finished (eventCheck d eventId)"
                 "truthy (findKey (hd rows) nameKeys)"
                 "rows = pre @ rA # mid @ rB # post"
    and completes: "import_loop d now eventId rows = Inr stF"
    and before: "import_rows now eventId nameKey phoneKey emailKey 0 pre
                   \<lparr>tx = d, imported = 0, skipped = 0, duplicates = []\<rparr> = Inr st"
    and names: "cell rA nameKey = Some n" "cell rB nameKey = Some n" "n \<noteq> []"
    and noName: "\<forall>b\<in>set (attendees (tx st)).
                   \<not> (a_event_id b = eventId
                      \<and> sql_lower_alnum (a_name b) = normalizeName (Some n))"
    and noPhone: "\<forall>b\<in>set (attendees (tx st)).
                   \<not> (a_event_id b = eventId
                      \<and> truthy (sql_strip_non_digits (a_phone_number b))
                      \<and> sql_strip_non_digits (a_phone_number b) = normalizePhone phoneA)"
    and between: "import_rows now eventId nameKey phoneKey emailKey (Suc (length pre)) mid st1
                    = Inr stM"
    and onlyA: "\<forall>b\<in>set (attendees (tx stM)).
                   a_event_id b = eventId
                   \<and> truthy (sql_strip_non_digits (a_phone_number b))
                   \<and> sql_strip_non_digits (a_phone_number b) = normalizePhone phoneB
                   \<longrightarrow> b = a"
  shows "import_attendees d now eventId (Sheet rows) =
           \<lparr>resp = \<lparr>status = 200, success = True,
                    body = ImportBody (imported stF) (skipped stF) (duplicates stF)\<rparr>,
            store = tx stF,
            emitted = [\<lparr>room = eventId, event_name = ''attendees:imported'',
                        payload = ImportedEvent (imported stF) (skipped stF)
                                    (getEventStats (tx stF) eventId)\<rparr>]\<rparr>
       \<and> import_rows now eventId nameKey phoneKey emailKey 0 (pre @ [rA])
             \<lparr>tx = d, imported = 0, skipped = 0, duplicates = []\<rparr> = Inr st1
       \<and> import_rows now eventId nameKey phoneKey emailKey 0 (pre @ rA # mid @ [rB])
             \<lparr>tx = d, imported = 0, skipped = 0, duplicates = []\<rparr> =
           Inr (stM\<lparr>duplicates := duplicates stM @ [c]\<rparr>)
       \<and> a \<in> set (attendees (tx stF))
       \<and> c \<in> set (duplicates stF)"
proof -
  let ?run = "import_rows now eventId nameKey phoneKey emailKey"
  let ?init = "\<lparr>tx = d, imported = 0, skipped = 0, duplicates = []\<rparr>"
  let ?byName = "\<lambda>b. a_event_id b = eventId
                    \<and> sql_lower_alnum (a_name b) = normalizeName (Some n)"
  let ?byPhone = "\<lambda>k b. a_event_id b = eventId \<and> sql_strip_non_digits (a_phone_number b) = k"
  let ?st3 = "stM\<lparr>duplicates := duplicates stM @ [c]\<rparr>"
  \<comment> \<open>the rows before A\<close>
  have pre: "?run 0 (pre @ ys) ?init = ?run (length pre) ys st" for ys
    using before by (simp add: import_rows_append)
  \<comment> \<open>row A finds no match\<close>
  have nameNone: "find ?byName (attendees (tx st)) = None"
    using noName by (simp add: find_None_iff)
  have phoneNoneA: "find (?byPhone (normalizePhone phoneA)) (attendees (tx st)) = None"
    if "truthy (normalizePhone phoneA)"
    using noPhone that by (auto simp: find_None_iff)
  have dupA: "duplicateMatch (tx st) eventId n phoneA = None"
    using nameNone phoneNoneA by (simp add: duplicateMatch_find)
  \<comment> \<open>the insert for A does not raise, since the import runs to its end\<close>
  have "?run 0 rows ?init = Inr stF"
    using completes unfolding import_loop_def Let_def nameKey_def phoneKey_def emailKey_def .
  then have "?run 0 (pre @ rA # mid @ rB # post) ?init = Inr stF"
    unfolding reach(3) .
  then have whole: "?run (length pre) (rA # mid @ rB # post) st = Inr stF"
    by (simp only: pre)
  have insA: "insert_attendee (tx st) now eventId n (or_null phoneA) (or_null emailA)
                SourceImport = Inr (a, tx st1)"
  proof (cases "insert_attendee (tx st) now eventId n (or_null phoneA) (or_null emailA)
                  SourceImport")
    case (Inl err)
    have "?run (length pre) (rA # mid @ rB # post) st = Inl err"
      using names(1,3) dupA Inl unfolding phoneA_def emailA_def
      by (rule import_rows_insert_fails)
    with whole show ?thesis by simp
  next
    case (Inr p)
    then obtain a' d' where ins: "insert_attendee (tx st) now eventId n (or_null phoneA)
                                    (or_null emailA) SourceImport = Inr (a', d')"
      by (cases p) simp
    have tn: "n = [] \<or> last n \<noteq> CHR '' ''"
      using names(1) by (rule cell_no_trailing_space)
    have tp: "case or_null phoneA of None \<Rightarrow> True | Some p \<Rightarrow> p = [] \<or> last p \<noteq> CHR '' ''"
      by (auto simp: phoneA_def or_null_def split: option.splits
               dest: cell_no_trailing_space)
    have te: "case or_null emailA of None \<Rightarrow> True | Some m \<Rightarrow> m = [] \<or> last m \<noteq> CHR '' ''"
      by (auto simp: emailA_def or_null_def split: option.splits
               dest: cell_no_trailing_space)
    from insert_attendee_Inr_trimmed [OF ins tn tp te]
    have "a' = a" "d' = tx st1"
      by (simp_all add: a_def st1_def)
    with ins show ?thesis by simp
  qed
  have stepA: "?run (length pre) (rA # ys) st = ?run (Suc (length pre)) ys st1" for ys
  proof -
    have "st\<lparr>tx := tx st1, imported := Suc (imported st)\<rparr> = st1"
      by (simp add: st1_def)
    with import_rows_insert [OF names(1,3) dupA [unfolded phoneA_def]
           insA [unfolded phoneA_def emailA_def], where i = "length pre" and rows = ys]
    show ?thesis by simp
  qed
  \<comment> \<open>the rows between A and B\<close>
  have mid: "?run (Suc (length pre)) (mid @ ys) st1 = ?run (Suc (length pre) + length mid) ys stM"
    for ys
    using between by (simp add: import_rows_append)
  from import_rows_grows [OF between] obtain new
    where roster2: "attendees (tx stM) = attendees (tx st) @ a # new"
    by (auto simp: st1_def)
  \<comment> \<open>row B finds the attendee of A\<close>
  have aName: "?byName a"
    by (simp add: a_def sql_lower_alnum_normalizeName)
  have aPhone: "sql_strip_non_digits (a_phone_number a) = normalizePhone phoneA"
    by (simp add: a_def sql_strip_or_null)
  have findName: "find ?byName (attendees (tx stM)) = Some a"
    using nameNone aName by (simp add: roster2 find_append_cases)
  have findPhone: "find (?byPhone (normalizePhone phoneB)) (attendees (tx stM)) =
                     (if normalizePhone phoneB = normalizePhone phoneA then Some a else None)"
    if t: "truthy (normalizePhone phoneB)"
  proof (cases "find (?byPhone (normalizePhone phoneB)) (attendees (tx stM))")
    case None
    have "a \<in> set (attendees (tx stM))"
      by (simp add: roster2)
    with None have "\<not> ?byPhone (normalizePhone phoneB) a"
      by (auto simp: find_None_iff)
    then have "normalizePhone phoneB \<noteq> normalizePhone phoneA"
      using aPhone by (simp add: a_def)
    with None show ?thesis by simp
  next
    case (Some b)
    then have "b \<in> set (attendees (tx stM))" "?byPhone (normalizePhone phoneB) b"
      by (auto simp: find_Some_iff)
    with onlyA t have "b = a"
      by auto
    with Some \<open>?byPhone (normalizePhone phoneB) b\<close> aPhone show ?thesis
      by simp
  qed
  have dupB: "duplicateMatch (tx stM) eventId n phoneB =
                Some \<lparr>matchedBy = c_matchedBy c, existingName = c_existingName c,
                      existingPhone = c_existingPhone c\<rparr>"
    using findName findPhone
    by (simp add: duplicateMatch_find c_def) (simp add: a_def)
  have stepB: "?run (Suc (length pre) + length mid) (rB # ys) stM =
                 ?run (Suc (Suc (length pre) + length mid)) ys ?st3" for ys
  proof -
    note step = import_rows_duplicate [OF names(2,3) dupB [unfolded phoneB_def],
            where now = now and emailKey = emailKey
              and i = "Suc (length pre) + length mid" and rows = ys,
            folded phoneB_def emailB_def]
    have "\<lparr>c_name = n, c_phone = phoneB, c_email = emailB,
           c_rowIndex = Suc (length pre) + length mid + 2,
           c_matchedBy = matchedBy \<lparr>matchedBy = c_matchedBy c, existingName = c_existingName c,
                                    existingPhone = c_existingPhone c\<rparr>,
           c_existingName = existingName \<lparr>matchedBy = c_matchedBy c,
                              existingName = c_existingName c,
                              existingPhone = c_existingPhone c\<rparr>,
           c_existingPhone = existingPhone \<lparr>matchedBy = c_matchedBy c,
                               existingName = c_existingName c,
                               existingPhone = c_existingPhone c\<rparr>\<rparr> = c"
      by (simp add: c_def)
    with step show ?thesis by (simp only:)
  qed
  \<comment> \<open>the rows after B\<close>
  have rest: "?run (Suc (Suc (length pre) + length mid)) post ?st3 = Inr stF"
    using whole by (simp only: stepA mid stepB)
  from import_rows_grows [OF rest] obtain new' more
    where "attendees (tx stF) = attendees (tx stM) @ new'"
      and "duplicates stF = duplicates stM @ c # more"
    by auto
  then have mem: "a \<in> set (attendees (tx stF))" "c \<in> set (duplicates stF)"
    by (simp_all add: roster2)
  have r1: "?run 0 (pre @ [rA]) ?init = Inr st1"
    by (simp only: pre stepA import_rows.simps(1))
  have r2: "?run 0 (pre @ rA # mid @ [rB]) ?init = Inr ?st3"
    by (simp only: pre stepA mid stepB import_rows.simps(1))
  have "rows \<noteq> []"
    using reach(3) by simp
  with completes reach(1,2)
  have "import_attendees d now eventId (Sheet rows) =
           \<lparr>resp = \<lparr>status = 200, success = True,
                    body = ImportBody (imported stF) (skipped stF) (duplicates stF)\<rparr>,
            store = tx stF,
            emitted = [\<lparr>room = eventId, event_name = ''attendees:imported'',
                        payload = ImportedEvent (imported stF) (skipped stF)
                                    (getEventStats (tx stF) eventId)\<rparr>]\<rparr>"
    by (simp add: import_attendees_def import_transaction_def reply_emit_def)
  with r1 r2 mem show ?thesis by simp
qed

text \<open>
  The theorem at the roster with Mary-Ann Lee and a sheet of five rows: Carol, Alice with
  the phone 1-1 (row A), Dave, Alice with the phone 11 (row B) and Eve. Four rows are
  imported and row B, the fifth line of the file, is reported as a duplicate of the Alice
  just inserted, by phone.
\<close>

theorem same_name_rows_second_is_duplicate_of_first_witness:
  "import_attendees ex_mary_db 5 1
     (Sheet [[(''Name'', ''Carol''), (''Phone'', ''55'')],
             [(''Name'', ''Alice''), (''Phone'', ''1-1'')],
             [(''Name'', ''Dave''), (''Phone'', ''22'')],
             [(''Name'', ''Alice''), (''Phone'', ''11'')],
             [(''Name'', ''Eve''), (''Phone'', ''33'')]]) =
   \<lparr>resp = \<lparr>status = 200, success = True,
            body = ImportBody 4 0
              [\<lparr>c_name = ''Alice'', c_phone = Some ''11'', c_email = None, c_rowIndex = 5,
                c_matchedBy = MatchedByPhone, c_existingName = ''Alice'',
                c_existingPhone = Some ''1-1''\<rparr>]\<rparr>,
    store = \<lparr>events = [\<lparr>e_id = 1, e_is_finished = False\<rparr>],
              attendees = [ex_mary,
                \<lparr>a_id = 2, a_event_id = 1, a_name = ''Carol'', a_phone_number = Some ''55'',
                 a_email = None, a_checked_in = False, a_checked_in_at = None,
                 a_source = SourceImport, a_created_at = 5, a_updated_at = 5\<rparr>,
                \<lparr>a_id = 3, a_event_id = 1, a_name = ''Alice'', a_phone_number = Some ''1-1'',
                 a_email = None, a_checked_in = False, a_checked_in_at = None,
                 a_source = SourceImport, a_created_at = 5, a_updated_at = 5\<rparr>,
                \<lparr>a_id = 4, a_event_id = 1, a_name = ''Dave'', a_phone_number = Some ''22'',
                 a_email = None, a_checked_in = False, a_checked_in_at = None,
                 a_source = SourceImport, a_created_at = 5, a_updated_at = 5\<rparr>,
                \<lparr>a_id = 5, a_event_id = 1, a_name = ''Eve'', a_phone_number = Some ''33'',
                 a_email = None, a_checked_in = False, a_checked_in_at = None,
                 a_source = SourceImport, a_created_at = 5, a_updated_at = 5\<rparr>],
              attendees_id_seq = 6\<rparr>,
    emitted = [\<lparr>room = 1, event_name = ''attendees:imported'',
                payload = ImportedEvent 4 0 \<lparr>total_attendees = 5, checked_in_count = 0\<rparr>\<rparr>]\<rparr>"
  by (rule same_name_rows_second_is_duplicate_of_first
        [where pre = "[[(''Name'', ''Carol''), (''Phone'', ''55'')]]"
           and rA = "[(''Name'', ''Alice''), (''Phone'', ''1-1'')]"
           and mid = "[[(''Name'', ''Dave''), (''Phone'', ''22'')]]"
           and rB = "[(''Name'', ''Alice''), (''Phone'', ''11'')]"
           and post = "[[(''Name'', ''Eve''), (''Phone'', ''33'')]]"
           and n = "''Alice''"
           and st = "\<lparr>tx = \<lparr>events = [\<lparr>e_id = 1, e_is_finished = False\<rparr>],
                attendees = [ex_mary,
                  \<lparr>a_id = 2, a_event_id = 1, a_name = ''Carol'', a_phone_number = Some ''55'',
                   a_email = None, a_checked_in = False, a_checked_in_at = None,
                   a_source = SourceImport, a_created_at = 5, a_updated_at = 5\<rparr>],
                attendees_id_seq = 3\<rparr>,
              imported = 1, skipped = 0, duplicates = []\<rparr>"
           and stM = "\<lparr>tx = \<lparr>events = [\<lparr>e_id = 1, e_is_finished = False\<rparr>],
                attendees = [ex_mary,
                  \<lparr>a_id = 2, a_event_id = 1, a_name = ''Carol'', a_phone_number = Some ''55'',
                   a_email = None, a_checked_in = False, a_checked_in_at = None,
                   a_source = SourceImport, a_created_at = 5, a_updated_at = 5\<rparr>,
                  \<lparr>a_id = 3, a_event_id = 1, a_name = ''Alice'', a_phone_number = Some ''1-1'',
                   a_email = None, a_checked_in = False, a_checked_in_at = None,
                   a_source = SourceImport, a_created_at = 5, a_updated_at = 5\<rparr>,
                  \<lparr>a_id = 4, a_event_id = 1, a_name = ''Dave'', a_phone_number = Some ''22'',
                   a_email = None, a_checked_in = False, a_checked_in_at = None,
                   a_source = SourceImport, a_created_at = 5, a_updated_at = 5\<rparr>],
                attendees_id_seq = 5\<rparr>,
              imported = 3, skipped = 0, duplicates = []\<rparr>"
           and stF = "\<lparr>tx = \<lparr>events = [\<lparr>e_id = 1, e_is_finished = False\<rparr>],
                attendees = [ex_mary,
                  \<lparr>a_id = 2, a_event_id = 1, a_name = ''Carol'', a_phone_number = Some ''55'',
                   a_email = None, a_checked_in = False, a_checked_in_at = None,
                   a_source = SourceImport, a_created_at = 5, a_updated_at = 5\<rparr>,
                  \<lparr>a_id = 3, a_event_id = 1, a_name = ''Alice'', a_phone_number = Some ''1-1'',
                   a_email = None, a_checked_in = False, a_checked_in_at = None,
                   a_source = SourceImport, a_created_at = 5, a_updated_at = 5\<rparr>,
                  \<lparr>a_id = 4, a_event_id = 1, a_name = ''Dave'', a_phone_number = Some ''22'',
                   a_email = None, a_checked_in = False, a_checked_in_at = None,
                   a_source = SourceImport, a_created_at = 5, a_updated_at = 5\<rparr>,
                  \<lparr>a_id = 5, a_event_id = 1, a_name = ''Eve'', a_phone_number = Some ''33'',
                   a_email = None, a_checked_in = False, a_checked_in_at = None,
                   a_source = SourceImport, a_created_at = 5, a_updated_at = 5\<rparr>],
                attendees_id_seq = 6\<rparr>,
              imported = 4, skipped = 0,
              duplicates = [\<lparr>c_name = ''Alice'', c_phone = Some ''11'', c_email = None,
                c_rowIndex = 5, c_matchedBy = MatchedByPhone, c_existingName = ''Alice'',
                c_existingPhone = Some ''1-1''\<rparr>]\<rparr>",
         THEN conjunct1, THEN trans])
     code_simp+

text \<open>
  As the claim is written, with no condition on the phones, it fails: two equal rows named
  Alice whose phone is that of John Doe are both matched with John Doe by phone; the
  first is not imported and the second is not matched with the first.
\<close>

theorem same_name_rows_both_flagged_by_phone:
  "import_attendees ex_db 5 1
     (Sheet [[(''Name'', ''Alice''), (''Phone'', ''0812 345 678'')],
             [(''Name'', ''Alice''), (''Phone'', ''0812 345 678'')]]) =
   \<lparr>resp = \<lparr>status = 200, success = True,
            body = ImportBody 0 0
              [\<lparr>c_name = ''Alice'', c_phone = Some ''0812 345 678'', c_email = None,
                c_rowIndex = 2, c_matchedBy = MatchedByPhone, c_existingName = ''John Doe'',
                c_existingPhone = Some ''0812345678''\<rparr>,
               \<lparr>c_name = ''Alice'', c_phone = Some ''0812 345 678'', c_email = None,
                c_rowIndex = 3, c_matchedBy = MatchedByPhone, c_existingName = ''John Doe'',
                c_existingPhone = Some ''0812345678''\<rparr>]\<rparr>,
    store = ex_db,
    emitted = [\<lparr>room = 1, event_name = ''attendees:imported'',
                payload = ImportedEvent 0 0 \<lparr>total_attendees = 1, checked_in_count = 0\<rparr>\<rparr>]\<rparr>"
  by code_simp

section \<open>The import transaction\<close>

text \<open>Whatever the upload, a response other than 200 leaves the database as it was.\<close>

lemma import_attendees_all_or_nothing:
  "status (resp (import_attendees d now eventId up)) \<noteq> 200
     \<Longrightarrow> store (import_attendees d now eventId up) = d
         \<and> emitted (import_attendees d now eventId up) = []"
  by (cases up)
     (simp_all add: import_attendees_def import_transaction_def reply_def reply_emit_def
           split: sum.splits if_splits)

text \<open>
  C5. The import has reached its transaction (the event is not finished, the sheet has
  rows and a name column) and, after the rows before it were processed, the insert for a
  row raises an error. Then the transaction is rolled back: the database after the request
  is the database before it, so no attendee of this import is committed, also none of the
  rows inserted before the failure; nothing is broadcast; and the caller gets the error
  response 500 with the error.
\<close>

theorem import_insert_failure_rolls_back:
  fixes d :: db and rows pre post :: "row list" and r :: row
  defines "nameKey \<equiv> the (findKey (hd rows) nameKeys)"
      and "phoneKey \<equiv> findKey (hd rows) phoneKeys"
      and "emailKey \<equiv> findKey (hd rows) emailKeys"
  assumes reach: "\<not> first_is_finished (eventCheck d eventId)" "rows = pre @ r # post"
                 "truthy (findKey (hd rows) nameKeys)"
    and before: "import_rows now eventId nameKey phoneKey emailKey 0 pre
                   \<lparr>tx = d, imported = 0, skipped = 0, duplicates = []\<rparr> = Inr st"
    and row: "cell r nameKey = Some n" "n \<noteq> []"
             "duplicateMatch (tx st) eventId n
                (if truthy phoneKey then cell r (the phoneKey) else None) = None"
    and fails: "insert_attendee (tx st) now eventId n
                  (or_null (if truthy phoneKey then cell r (the phoneKey) else None))
                  (or_null (if truthy emailKey then cell r (the emailKey) else None))
                  SourceImport = Inl err"
  shows "import_attendees d now eventId (Sheet rows) =
           \<lparr>resp = \<lparr>status = 500, success = False,
                    body = FailureBody ''Error processing file: '' err\<rparr>,
            store = d, emitted = []\<rparr>"
proof -
  have "import_rows now eventId nameKey phoneKey emailKey (0 + length pre) (r # post) st = Inl err"
    using row fails by (rule import_rows_insert_fails)
  with before have "import_rows now eventId nameKey phoneKey emailKey 0 (pre @ r # post)
                      \<lparr>tx = d, imported = 0, skipped = 0, duplicates = []\<rparr> = Inl err"
    by (simp add: import_rows_append)
  then have "import_loop d now eventId rows = Inl err"
    by (simp add: import_loop_def reach(2) nameKey_def phoneKey_def emailKey_def)
  moreover have "rows \<noteq> []"
    using reach(2) by simp
  ultimately show ?thesis
    using reach(1,3)
    by (simp add: import_attendees_def import_transaction_def reply_def)
qed

text \<open>
  The theorem at a sheet of two rows: Alice is inserted, then the insert for Bob raises
  because his phone has 51 characters, one more than the column holds. The roster is the
  one of before the request.
\<close>

theorem import_insert_failure_rolls_back_witness:
  "import_attendees ex_db 5 1
     (Sheet [[(''Name'', ''Alice''), (''Phone'', ''11'')],
             [(''Name'', ''Bob''),
              (''Phone'', ''000000000000000000000000000000000000000000000000000'')]]) =
   \<lparr>resp = \<lparr>status = 500, success = False,
            body = FailureBody ''Error processing file: '' StringTooLong\<rparr>,
    store = ex_db, emitted = []\<rparr>"
proof -
  let ?A = "[(''Name'', ''Alice''), (''Phone'', ''11'')]"
  let ?B = "[(''Name'', ''Bob''),
             (''Phone'', ''000000000000000000000000000000000000000000000000000'')]"
  let ?rows = "[?A, ?B]"
  let ?st = "\<lparr>tx = \<lparr>events = [\<lparr>e_id = 1, e_is_finished = False\<rparr>],
                     attendees = [ex_john,
                       \<lparr>a_id = 2, a_event_id = 1, a_name = ''Alice'',
                        a_phone_number = Some ''11'', a_email = None, a_checked_in = False,
                        a_checked_in_at = None, a_source = SourceImport, a_created_at = 5,
                        a_updated_at = 5\<rparr>],
                     attendees_id_seq = 3\<rparr>,
              imported = 1, skipped = 0, duplicates = []\<rparr>"
  have h1: "\<not> first_is_finished (eventCheck ex_db 1)"
    by code_simp
  have h2: "?rows = [?A] @ ?B # []"
    by simp
  have h3: "truthy (findKey (hd ?rows) nameKeys)"
    by code_simp
  have h4: "import_rows 5 1 (the (findKey (hd ?rows) nameKeys)) (findKey (hd ?rows) phoneKeys)
              (findKey (hd ?rows) emailKeys) 0 [?A]
              \<lparr>tx = ex_db, imported = 0, skipped = 0, duplicates = []\<rparr> = Inr ?st"
    by code_simp
  have h5: "cell ?B (the (findKey (hd ?rows) nameKeys)) = Some ''Bob''"
    by code_simp
  have h6: "''Bob'' \<noteq> []"
    by simp
  have h7: "duplicateMatch (tx ?st) 1 ''Bob''
              (if truthy (findKey (hd ?rows) phoneKeys)
               then cell ?B (the (findKey (hd ?rows) phoneKeys)) else None) = None"
    by code_simp
  have h8: "insert_attendee (tx ?st) 5 1 ''Bob''
              (or_null (if truthy (findKey (hd ?rows) phoneKeys)
                        then cell ?B (the (findKey (hd ?rows) phoneKeys)) else None))
              (or_null (if truthy (findKey (hd ?rows) emailKeys)
                        then cell ?B (the (findKey (hd ?rows) emailKeys)) else None))
              SourceImport = Inl StringTooLong"
    by code_simp
  from import_insert_failure_rolls_back [OF h1 h2 h3 h4 h5 h6 h7 h8]
  show ?thesis .
qed

section \<open>Check-in\<close>

lemma is_attendee_set_checked_in [simp]:
  "is_attendee attendeeId eventId (set_checked_in now a) = is_attendee attendeeId eventId a"
  by (simp add: is_attendee_def set_checked_in_def)

lemma filter_updated:
  assumes "\<And>x. p (f x) = p x"
  shows "filter p (map (\<lambda>x. if p x then f x else x) xs) = map f (filter p xs)"
  using assms by (induction xs) auto

lemma eventCheck_attendees_update [simp]:
  "eventCheck (d\<lparr>attendees := xs\<rparr>) eventId = eventCheck d eventId"
  by (simp add: eventCheck_def)

text \<open>A check-in of an attendee that is not yet checked in, on an event that is not finished.\<close>

lemma check_in_pending:
  assumes "eventCheck d eventId = False # fs"
    and "filter (is_attendee attendeeId eventId) (attendees d) = a # as"
    and "\<not> a_checked_in a"
  shows "check_in d now eventId attendeeId =
           \<lparr>resp = \<lparr>status = 200, success = True,
                    body = MessageDataBody (a_name a @ '' checked in successfully!'')
                             (set_checked_in now a)\<rparr>,
            store = d\<lparr>attendees :=
                       map (\<lambda>x. if is_attendee attendeeId eventId x then set_checked_in now x
                                else x) (attendees d)\<rparr>,
            emitted =
              [\<lparr>room = eventId, event_name = ''attendee:checked_in'',
                payload = AttendeeEvent (set_checked_in now a)
                  (getEventStats
                     (d\<lparr>attendees :=
                          map (\<lambda>x. if is_attendee attendeeId eventId x
                                    then set_checked_in now x else x) (attendees d)\<rparr>)
                     eventId)\<rparr>]\<rparr>"
proof -
  have "a_name (set_checked_in now a) = a_name a"
    by (simp add: set_checked_in_def)
  with assms show ?thesis
    by (simp add: check_in_def update_attendees_def reply_emit_def)
qed

lemma check_in_conflict:
  assumes "eventCheck d eventId = False # fs"
    and "filter (is_attendee attendeeId eventId) (attendees d) = a # as"
    and "a_checked_in a"
  shows "check_in d now eventId attendeeId =
           \<lparr>resp = \<lparr>status = 409, success = False,
                    body = MessageDataBody (a_name a @ '' is already checked in'') a\<rparr>,
            store = d, emitted = []\<rparr>"
  using assms by (simp add: check_in_def reply_def)

text \<open>
  C6. On an event that exists and is not finished, a check-in of an attendee whose
  \<^verbatim>\<open>checked_in\<close> flag is true answers 409, which is neither a success nor an internal
  error, with the current record, and leaves the database as it is: the record, its
  check-in time and the statistics are those of before. In particular, after a first
  check-in at time \<open>t1\<close> a second one at time \<open>t2\<close> answers 409 with the record whose
  check-in time is \<open>t1\<close>.
\<close>

theorem check_in_again_is_conflict:
  assumes "eventCheck d eventId = False # fs"
    and "filter (is_attendee attendeeId eventId) (attendees d) = a # as"
  shows "(a_checked_in a \<longrightarrow>
            check_in d now eventId attendeeId =
              \<lparr>resp = \<lparr>status = 409, success = False,
                       body = MessageDataBody (a_name a @ '' is already checked in'') a\<rparr>,
               store = d, emitted = []\<rparr>
            \<and> getEventStats (store (check_in d now eventId attendeeId)) eventId
                = getEventStats d eventId)
       \<and> (\<not> a_checked_in a \<longrightarrow>
            (let r1 = check_in d t1 eventId attendeeId;
                 r2 = check_in (store r1) t2 eventId attendeeId
             in status (resp r1) = 200
                \<and> body (resp r1) =
                    MessageDataBody (a_name a @ '' checked in successfully!'')
                      (a\<lparr>a_checked_in := True, a_checked_in_at := Some t1, a_updated_at := t1\<rparr>)
                \<and> resp r2 =
                    \<lparr>status = 409, success = False,
                     body = MessageDataBody (a_name a @ '' is already checked in'')
                       (a\<lparr>a_checked_in := True, a_checked_in_at := Some t1,
                          a_updated_at := t1\<rparr>)\<rparr>
                \<and> store r2 = store r1 \<and> emitted r2 = []
                \<and> getEventStats (store r2) eventId = getEventStats (store r1) eventId))"
proof -
  have again: "check_in d now eventId attendeeId =
              \<lparr>resp = \<lparr>status = 409, success = False,
                       body = MessageDataBody (a_name a @ '' is already checked in'') a\<rparr>,
               store = d, emitted = []\<rparr>
            \<and> getEventStats (store (check_in d now eventId attendeeId)) eventId
                = getEventStats d eventId"
    if "a_checked_in a"
    using check_in_conflict [OF assms that] by simp
  have twice: "let r1 = check_in d t1 eventId attendeeId;
                 r2 = check_in (store r1) t2 eventId attendeeId
             in status (resp r1) = 200
                \<and> body (resp r1) =
                    MessageDataBody (a_name a @ '' checked in successfully!'')
                      (a\<lparr>a_checked_in := True, a_checked_in_at := Some t1, a_updated_at := t1\<rparr>)
                \<and> resp r2 =
                    \<lparr>status = 409, success = False,
                     body = MessageDataBody (a_name a @ '' is already checked in'')
                       (a\<lparr>a_checked_in := True, a_checked_in_at := Some t1,
                          a_updated_at := t1\<rparr>)\<rparr>
                \<and> store r2 = store r1 \<and> emitted r2 = []
                \<and> getEventStats (store r2) eventId = getEventStats (store r1) eventId"
    if pending: "\<not> a_checked_in a"
  proof -
    let ?d1 = "d\<lparr>attendees :=
                    map (\<lambda>x. if is_attendee attendeeId eventId x then set_checked_in t1 x
                             else x) (attendees d)\<rparr>"
    note r1 = check_in_pending [OF assms pending, of t1]
    have ev: "eventCheck ?d1 eventId = False # fs"
      using assms(1) by simp
    have cur: "filter (is_attendee attendeeId eventId) (attendees ?d1) =
                 set_checked_in t1 a # map (set_checked_in t1) as"
      using assms(2) by (simp add: filter_updated)
    have chk: "a_checked_in (set_checked_in t1 a)"
      by (simp add: set_checked_in_def)
    note r2 = check_in_conflict [OF ev cur chk, of t2]
    have nm: "a_name (set_checked_in t1 a) = a_name a"
      "set_checked_in t1 a = a\<lparr>a_checked_in := True, a_checked_in_at := Some t1, a_updated_at := t1\<rparr>"
      by (simp_all add: set_checked_in_def)
    show ?thesis
      unfolding Let_def r1 using r2 nm by (simp add: r1)
  qed
  from again twice show ?thesis by blast
qed

text \<open>
  The theorem at John Doe: checked in at 7 already, a check-in at 9 answers 409 with the
  record of 7; and from the pending record, a check-in at 7 followed by one at 9.
\<close>

theorem check_in_again_is_conflict_witness:
  "check_in (ex_db\<lparr>attendees := [ex_john\<lparr>a_checked_in := True, a_checked_in_at := Some 7\<rparr>]\<rparr>)
      9 1 1 =
     \<lparr>resp = \<lparr>status = 409, success = False,
              body = MessageDataBody ''John Doe is already checked in''
                       (ex_john\<lparr>a_checked_in := True, a_checked_in_at := Some 7\<rparr>)\<rparr>,
      store = ex_db\<lparr>attendees := [ex_john\<lparr>a_checked_in := True, a_checked_in_at := Some 7\<rparr>]\<rparr>,
      emitted = []\<rparr>
   \<and> resp (check_in (store (check_in ex_db 7 1 1)) 9 1 1) =
     \<lparr>status = 409, success = False,
      body = MessageDataBody ''John Doe is already checked in''
               (ex_john\<lparr>a_checked_in := True, a_checked_in_at := Some 7, a_updated_at := 7\<rparr>)\<rparr>
   \<and> store (check_in (store (check_in ex_db 7 1 1)) 9 1 1) = store (check_in ex_db 7 1 1)"
proof -
  let ?j = "ex_john\<lparr>a_checked_in := True, a_checked_in_at := Some 7\<rparr>"
  let ?d = "ex_db\<lparr>attendees := [?j]\<rparr>"
  have e1: "eventCheck ?d 1 = False # []" and e2: "eventCheck ex_db 1 = False # []"
    by (simp_all add: eventCheck_def)
  have f1: "filter (is_attendee 1 1) (attendees ?d) = ?j # []"
    and f2: "filter (is_attendee 1 1) (attendees ex_db) = ex_john # []"
    by (simp_all add: is_attendee_def)
  have c1: "a_checked_in ?j" and c2: "\<not> a_checked_in ex_john"
    by simp_all
  from check_in_again_is_conflict [OF e1 f1, of 9 0 0] c1
    check_in_again_is_conflict [OF e2 f2, of 0 7 9] c2
  show ?thesis
    by (simp add: Let_def)
qed

section \<open>Adding one attendee\<close>

text \<open>
  C10. The manual add runs no duplicate check. On an event that exists and is not
  finished, a request with a non-empty name whose values the table accepts (no code unit
  0, a trimmed name of at most 255 characters, a trimmed phone of at most 50, a secondary
  identifier of at most 255) inserts a new attendee with source \<^verbatim>\<open>manual\<close> and answers
  201, whatever the roster holds: the new roster is the old one with the new record at its
  end, also when the old one already holds an attendee with the same name and phone.
\<close>

theorem add_attendee_inserts_whatever_the_roster:
  fixes d :: db and b :: add_body and eventId now :: nat
  defines "a \<equiv> \<lparr>a_id = attendees_id_seq d, a_event_id = eventId,
                  a_name = trim (the (b_name b)),
                  a_phone_number = or_null (map_option trim (b_phone_number b)),
                  a_email = or_null (b_email b), a_checked_in = False,
                  a_checked_in_at = None, a_source = SourceManual, a_created_at = now,
                  a_updated_at = now\<rparr>"
  assumes name: "truthy (b_name b)"
    and event: "eventId \<in> set (map e_id (events d))"
               "\<not> first_is_finished (eventCheck d eventId)"
    and fits: "length (trim (the (b_name b))) \<le> 255"
              "case b_phone_number b of None \<Rightarrow> True | Some p \<Rightarrow> length (trim p) \<le> 50"
              "case b_email b of None \<Rightarrow> True | Some m \<Rightarrow> length m \<le> 255"
    and clean: "CHR 0x00 \<notin> set (the (b_name b))"
              "case b_phone_number b of None \<Rightarrow> True | Some p \<Rightarrow> CHR 0x00 \<notin> set p"
              "case b_email b of None \<Rightarrow> True | Some m \<Rightarrow> CHR 0x00 \<notin> set m"
  shows "resp (add_attendee d now eventId b) =
           \<lparr>status = 201, success = True, body = DataBody a\<rparr>
       \<and> attendees (store (add_attendee d now eventId b)) = attendees d @ [a]
       \<and> total_attendees (getEventStats (store (add_attendee d now eventId b)) eventId) =
           Suc (total_attendees (getEventStats d eventId))"
proof -
  have dw: "set (dropWhile is_space xs) \<subseteq> set xs" for xs
    by (auto dest: set_dropWhileD)
  have sub: "set (trim s) \<subseteq> set s" for s
    using dw [of "rev (dropWhile is_space s)"] dw [of s] by (auto simp: trim_def)
  have phone: "case or_null (map_option trim (b_phone_number b)) of
                 None \<Rightarrow> True | Some p \<Rightarrow> length p \<le> 50"
    using fits(2) by (intro or_null_fits) (simp split: option.splits)
  have email: "case or_null (b_email b) of None \<Rightarrow> True | Some m \<Rightarrow> length m \<le> 255"
    using fits(3) by (rule or_null_fits)
  have n0: "\<not> has_nul (Some (trim (the (b_name b))))"
    using clean(1) sub [of "the (b_name b)"] by (auto simp: has_nul_def)
  have p0: "\<not> has_nul (or_null (map_option trim (b_phone_number b)))"
    using clean(2) sub by (intro or_null_has_nul) (auto simp: has_nul_def split: option.splits)
  have e0: "\<not> has_nul (or_null (b_email b))"
    using clean(3) by (intro or_null_has_nul) (auto simp: has_nul_def split: option.splits)
  have "insert_attendee d now eventId (trim (the (b_name b)))
          (or_null (map_option trim (b_phone_number b))) (or_null (b_email b)) SourceManual =
        Inr (a, d\<lparr>attendees := attendees d @ [a],
                  attendees_id_seq := Suc (attendees_id_seq d)\<rparr>)"
    unfolding a_def by (rule insert_attendee_ok [OF event(1) fits(1) phone email n0 p0 e0])
  with name event(2) show ?thesis
    by (simp add: add_attendee_def reply_emit_def getEventStats_def a_def)
qed

text \<open>
  The theorem at the roster with John Doe and a request with the same name and phone: a
  second John Doe is inserted.
\<close>

theorem add_attendee_inserts_whatever_the_roster_witness:
  "resp (add_attendee ex_db 5 1
       \<lparr>b_name = Some ''John Doe'', b_phone_number = Some ''0812345678'', b_email = None\<rparr>) =
     \<lparr>status = 201, success = True,
      body = DataBody (ex_john\<lparr>a_id := 2, a_created_at := 5, a_updated_at := 5\<rparr>)\<rparr>
   \<and> attendees (store (add_attendee ex_db 5 1
       \<lparr>b_name = Some ''John Doe'', b_phone_number = Some ''0812345678'', b_email = None\<rparr>)) =
     [ex_john, ex_john\<lparr>a_id := 2, a_created_at := 5, a_updated_at := 5\<rparr>]"
proof -
  let ?b = "\<lparr>b_name = Some ''John Doe'', b_phone_number = Some ''0812345678'', b_email = None\<rparr>"
  have t: "trim ''John Doe'' = ''John Doe''" "trim ''0812345678'' = ''0812345678''"
    by (simp_all add: trim_def is_space_def)
  have h: "truthy (b_name ?b)" "(1::nat) \<in> set (map e_id (events ex_db))"
    "\<not> first_is_finished (eventCheck ex_db 1)"
    "length (trim (the (b_name ?b))) \<le> 255"
    "case b_phone_number ?b of None \<Rightarrow> True | Some p \<Rightarrow> length (trim p) \<le> 50"
    "case b_email ?b of None \<Rightarrow> True | Some m \<Rightarrow> length m \<le> 255"
    "CHR 0x00 \<notin> set (the (b_name ?b))"
    "case b_phone_number ?b of None \<Rightarrow> True | Some p \<Rightarrow> CHR 0x00 \<notin> set p"
    "case b_email ?b of None \<Rightarrow> True | Some m \<Rightarrow> CHR 0x00 \<notin> set m"
    by (simp_all add: truthy_def eventCheck_def first_is_finished_def t)
  from add_attendee_inserts_whatever_the_roster [OF h, of 5]
  show ?thesis
    by (simp add: t or_null_def truthy_def)
qed

text \<open>
  As the claim is written, every call with a non-empty name inserts, it fails: on the same
  event a request whose phone has 51 characters, one more than the column holds, and a
  request whose name holds the code unit 0 are answered 500 and insert nothing.
\<close>

theorem add_attendee_rejected_values_insert_nothing:
  "add_attendee ex_db 5 1
     \<lparr>b_name = Some ''Ann'',
      b_phone_number = Some ''000000000000000000000000000000000000000000000000000'',
      b_email = None\<rparr> =
     \<lparr>resp = \<lparr>status = 500, success = False, body = MessageBody ''Server error''\<rparr>,
      store = ex_db, emitted = []\<rparr>
   \<and> add_attendee ex_db 5 1
     \<lparr>b_name = Some [CHR ''A'', CHR 0x00, CHR ''n''], b_phone_number = None, b_email = None\<rparr> =
     \<lparr>resp = \<lparr>status = 500, success = False, body = MessageBody ''Server error''\<rparr>,
      store = ex_db, emitted = []\<rparr>"
  by code_simp

text \<open>For an event identifier that no event has, the insert is issued and raises.\<close>

lemma insert_attendee_unknown_event:
  "eventId \<notin> set (map e_id (events d))
     \<Longrightarrow> \<exists>err. insert_attendee d now eventId name phone email src = Inl err"
  by (simp add: insert_attendee_def split: sum.splits)

lemma add_attendee_unknown_event:
  assumes "eventId \<notin> set (map e_id (events d))" "truthy (b_name b)"
  shows "add_attendee d now eventId b =
           \<lparr>resp = \<lparr>status = 500, success = False, body = MessageBody ''Server error''\<rparr>,
            store = d, emitted = []\<rparr>"
proof -
  from assms(1) have "eventCheck d eventId = []"
    by (auto simp: eventCheck_def filter_empty_conv)
  moreover obtain err where "insert_attendee d now eventId (trim (the (b_name b)))
       (or_null (map_option trim (b_phone_number b))) (or_null (b_email b)) SourceManual = Inl err"
    using insert_attendee_unknown_event [OF assms(1)] by blast
  ultimately show ?thesis
    using assms(2) by (simp add: add_attendee_def first_is_finished_def reply_def)
qed

text \<open>
  C9. The claim asks for a Not Found rejection before any write when the event of a manual
  add does not exist. The handler has no such check, unlike the check-in handler: the
  optional chaining \<^verbatim>\<open>eventCheck.rows[0]?.is_finished\<close> lets the request through, the
  insert is issued, the foreign key of \<^verbatim>\<open>event_id\<close> makes it raise, and the answer is
  500 with the message Server error. Here at the event identifier 7, which the example
  database does not hold; no row is added.
\<close>

theorem add_attendee_unknown_event_is_server_error:
  "eventCheck ex_db 7 = []
   \<and> insert_attendee ex_db 5 7 ''Ann'' None None SourceManual = Inl ForeignKeyViolation
   \<and> add_attendee ex_db 5 7 \<lparr>b_name = Some ''Ann'', b_phone_number = None, b_email = None\<rparr> =
       \<lparr>resp = \<lparr>status = 500, success = False, body = MessageBody ''Server error''\<rparr>,
        store = ex_db, emitted = []\<rparr>
   \<and> status (resp (check_in ex_db 5 7 1)) = 404"
  by code_simp

section \<open>Mutations of the roster of a finished event\<close>

text \<open>
  On a finished event the add, the import, the import of approved duplicates, the check-in
  and the deletion of one attendee answer 403 and leave the database as it is, once the
  request has passed its validation (a name, a file, a list of duplicates).
\<close>

lemma finished_event_rejects_guarded_mutations:
  assumes "first_is_finished (eventCheck d eventId)"
  shows "truthy (b_name b) \<longrightarrow>
           status (resp (add_attendee d now eventId b)) = 403
           \<and> store (add_attendee d now eventId b) = d"
    and "up \<noteq> NoFile \<longrightarrow>
           status (resp (import_attendees d now eventId up)) = 403
           \<and> store (import_attendees d now eventId up) = d"
    and "status (resp (import_duplicates d now eventId (Some dups))) = 403
           \<and> store (import_duplicates d now eventId (Some dups)) = d"
    and "status (resp (check_in d now eventId attendeeId)) = 403
           \<and> store (check_in d now eventId attendeeId) = d"
    and "status (resp (delete_attendee d eventId attendeeId)) = 403
           \<and> store (delete_attendee d eventId attendeeId) = d"
proof -
  show "truthy (b_name b) \<longrightarrow>
           status (resp (add_attendee d now eventId b)) = 403
           \<and> store (add_attendee d now eventId b) = d"
    using assms by (simp add: add_attendee_def reply_def)
  show "up \<noteq> NoFile \<longrightarrow>
           status (resp (import_attendees d now eventId up)) = 403
           \<and> store (import_attendees d now eventId up) = d"
    using assms by (cases up) (simp_all add: import_attendees_def reply_def)
  show "status (resp (import_duplicates d now eventId (Some dups))) = 403
           \<and> store (import_duplicates d now eventId (Some dups)) = d"
    using assms by (simp add: import_duplicates_def reply_def)
  show "status (resp (check_in d now eventId attendeeId)) = 403
           \<and> store (check_in d now eventId attendeeId) = d"
    using assms
    by (cases "eventCheck d eventId") (simp_all add: check_in_def first_is_finished_def reply_def)
  show "status (resp (delete_attendee d eventId attendeeId)) = 403
           \<and> store (delete_attendee d eventId attendeeId) = d"
    using assms by (simp add: delete_attendee_def reply_def)
qed

text \<open>The undo of a check-in and the deletion of all attendees never read the events.\<close>

lemma unguarded_mutations_ignore_events:
  "resp (undo_check_in (d\<lparr>events := es\<rparr>) now eventId attendeeId)
     = resp (undo_check_in d now eventId attendeeId)"
  "attendees (store (undo_check_in (d\<lparr>events := es\<rparr>) now eventId attendeeId))
     = attendees (store (undo_check_in d now eventId attendeeId))"
  "resp (clear_attendees (d\<lparr>events := es\<rparr>) eventId) = resp (clear_attendees d eventId)"
  "attendees (store (clear_attendees (d\<lparr>events := es\<rparr>) eventId))
     = attendees (store (clear_attendees d eventId))"
  by (simp_all add: undo_check_in_def clear_attendees_def update_attendees_def
        delete_attendees_def reply_def reply_emit_def getEventStats_def split: list.splits)

lemma clear_attendees_always_clears:
  "status (resp (clear_attendees d eventId)) = 200
   \<and> attendees (store (clear_attendees d eventId)) =
       filter (\<lambda>a. a_event_id a \<noteq> eventId) (attendees d)"
  by (simp add: clear_attendees_def delete_attendees_def reply_emit_def)

text \<open>
  C1. The claim asks that on a finished event every mutation of the roster but the undo
  of a check-in answers Forbidden and leaves the roster as it is. The handler of
  \<^verbatim>\<open>DELETE /\<close>, which clears the roster, has no check of the event, unlike the handler
  that deletes one attendee: on the finished example event it answers 200 and the roster,
  which held John Doe, is empty afterwards, while the deletion of John Doe alone is
  answered 403 there.
\<close>

theorem clear_attendees_on_finished_event:
  "first_is_finished (eventCheck ex_finished_db 1)
   \<and> clear_attendees ex_finished_db 1 =
       \<lparr>resp = \<lparr>status = 200, success = True, body = MessageBody ''All attendees cleared''\<rparr>,
        store = ex_finished_db\<lparr>attendees := []\<rparr>,
        emitted = [\<lparr>room = 1, event_name = ''attendees:cleared'',
                    payload = ClearedEvent \<lparr>total_attendees = 0, checked_in_count = 0\<rparr>\<rparr>]\<rparr>
   \<and> getEventStats ex_finished_db 1 = \<lparr>total_attendees = 1, checked_in_count = 0\<rparr>
   \<and> getEventStats (store (clear_attendees ex_finished_db 1)) 1 =
       \<lparr>total_attendees = 0, checked_in_count = 0\<rparr>
   \<and> delete_attendee ex_finished_db 1 1 =
       \<lparr>resp = \<lparr>status = 403, success = False,
                body = MessageBody
                  ''This event has been finished. Deleting attendees is disabled.''\<rparr>,
        store = ex_finished_db, emitted = []\<rparr>"
  by code_simp

end
